theory Spec2Isabelle
  imports Complex_Main "HOL-Library.Word"
begin

section \<open>JavaScript strings\<close>

text \<open>
  A JavaScript string is a sequence of 16-bit code units. A regular expression without
  the \<open>u\<close> flag, string concatenation and \<open>length\<close> all work on code units.
\<close>

type_synonym code_unit = "16 word"
type_synonym jsstring = "code_unit list"

text \<open>An ASCII literal of the source, as code units.\<close>

definition js :: "string \<Rightarrow> jsstring" where
  "js s = map (\<lambda>c. word_of_nat (of_char c)) s"

section \<open>Regular expressions: the fragment used by \<open>isValidEmail\<close>\<close>

text \<open>
  The character class escape \<open>\s\<close> of ECMAScript: the WhiteSpace code points
  (TAB, VT, FF, ZWNBSP and the Unicode space separators) and the LineTerminator code
  points (LF, CR, LS, PS).
\<close>

definition is_white_space :: "code_unit \<Rightarrow> bool" where
  "is_white_space c =
     (c = 0x0009 \<or> c = 0x000A \<or> c = 0x000B \<or> c = 0x000C \<or> c = 0x000D \<or> c = 0x0020 \<or>
      c = 0x00A0 \<or> c = 0x1680 \<or> (0x2000 \<le> c \<and> c \<le> 0x200A) \<or> c = 0x2028 \<or>
      c = 0x2029 \<or> c = 0x202F \<or> c = 0x205F \<or> c = 0x3000 \<or> c = 0xFEFF)"

datatype class_item = ClassSpace | ClassChar code_unit

datatype atom = Lit code_unit | NegClass "class_item list"

datatype rterm = AssertStart | AssertEnd | Atom atom | AtomPlus atom

fun item_matches :: "class_item \<Rightarrow> code_unit \<Rightarrow> bool" where
  "item_matches ClassSpace c = is_white_space c"
| "item_matches (ClassChar d) c = (c = d)"

fun atom_matches :: "atom \<Rightarrow> code_unit \<Rightarrow> bool" where
  "atom_matches (Lit d) c = (c = d)"
| "atom_matches (NegClass items) c = (\<not> list_ex (\<lambda>i. item_matches i c) items)"

text \<open>
  The backtracking matcher: \<open>match_here p i s\<close> tries the terms \<open>p\<close> at index \<open>i\<close> of
  the input, where \<open>s\<close> is the input from index \<open>i\<close> on. \<open>+\<close> is greedy: it first tries
  to take one more code unit, then to go on with the rest of the pattern.
\<close>

fun match_here :: "rterm list \<Rightarrow> nat \<Rightarrow> jsstring \<Rightarrow> bool" where
  "match_here [] i s = True"
| "match_here (AssertStart # ts) i s = (i = 0 \<and> match_here ts i s)"
| "match_here (AssertEnd # ts) i s = (s = [] \<and> match_here ts i s)"
| "match_here (Atom a # ts) i [] = False"
| "match_here (Atom a # ts) i (c # s) = (atom_matches a c \<and> match_here ts (Suc i) s)"
| "match_here (AtomPlus a # ts) i [] = False"
| "match_here (AtomPlus a # ts) i (c # s) =
     (atom_matches a c \<and> (match_here (AtomPlus a # ts) (Suc i) s \<or> match_here ts (Suc i) s))"

text \<open>
  \<open>RegExp.prototype.test\<close> on a regular expression without the \<open>g\<close> and \<open>y\<close> flags:
  the match is tried at index 0, then at each later index up to the length of the input.
\<close>

fun exec_from :: "rterm list \<Rightarrow> nat \<Rightarrow> jsstring \<Rightarrow> bool" where
  "exec_from p i [] = match_here p i []"
| "exec_from p i (c # s) = (match_here p i (c # s) \<or> exec_from p (Suc i) s)"

definition regex_test :: "rterm list \<Rightarrow> jsstring \<Rightarrow> bool" where
  "regex_test p s = exec_from p 0 s"

text \<open>The class \<open>[^\s@]\<close>, and the pattern \<open>/^[^\s@]+@[^\s@]+\.[^\s@]+$/\<close>.\<close>

definition not_space_at :: atom where
  "not_space_at = NegClass [ClassSpace, ClassChar 0x40]"

definition email_regex :: "rterm list" where
  "email_regex =
     [AssertStart, AtomPlus not_space_at, Atom (Lit 0x40), AtomPlus not_space_at,
      Atom (Lit 0x2E), AtomPlus not_space_at, AssertEnd]"

definition isValidEmail :: "jsstring \<Rightarrow> bool" where
  "isValidEmail email = regex_test email_regex email"

section \<open>Numbers\<close>

text \<open>
  A Number is an IEEE 754 binary64 value. The model keeps its value as a \<open>real\<close>, and
  every arithmetic operation of the source rounds its exact result with \<open>rnd\<close>, the
  rounding of the arithmetic, which the functions below take as a parameter. What is
  used of \<open>rnd\<close> is what rounding to nearest gives: it is monotone, and an integer of
  magnitude up to \<open>2^53\<close> is a Number and is left as it is.
\<close>

definition rounding :: "(real \<Rightarrow> real) \<Rightarrow> bool" where
  "rounding rnd =
     (mono rnd \<and> (\<forall>k::int. \<bar>k\<bar> \<le> 2 ^ 53 \<longrightarrow> rnd (real_of_int k) = real_of_int k))"

text \<open>
  The rounding of binary64 itself, to nearest with ties to even: a number other than 0
  is scaled by its unit in the last place, which is \<open>2^(e - 52)\<close> for the exponent \<open>e\<close>
  of its binade and \<open>2^(-1074)\<close> below the normal range, rounded to an integer there and
  scaled back. Overflow is left out: the values that the theorems on \<open>b64\<close> speak of are
  bounded well below \<open>2^1024\<close>.
\<close>

definition round_even :: "real \<Rightarrow> int" where
  "round_even y =
     (if y - of_int \<lfloor>y\<rfloor> < 1 / 2 then \<lfloor>y\<rfloor>
      else if 1 / 2 < y - of_int \<lfloor>y\<rfloor> then \<lfloor>y\<rfloor> + 1
      else if even \<lfloor>y\<rfloor> then \<lfloor>y\<rfloor> else \<lfloor>y\<rfloor> + 1)"

definition exponent :: "real \<Rightarrow> int" where
  "exponent x = max \<lfloor>log 2 \<bar>x\<bar>\<rfloor> (- 1022)"

definition ulp :: "real \<Rightarrow> real" where
  "ulp x = 2 powr of_int (exponent x - 52)"

definition b64 :: "real \<Rightarrow> real" where
  "b64 x = (if x = 0 then 0 else ulp x * of_int (round_even (x / ulp x)))"

text \<open>The decimal digits of a natural number, most significant first.\<close>

definition digit_char :: "nat \<Rightarrow> code_unit" where
  "digit_char d = word_of_nat (48 + d)"

fun digits :: "nat \<Rightarrow> jsstring" where
  "digits n = (if n < 10 then [digit_char n] else digits (n div 10) @ [digit_char (n mod 10)])"

declare digits.simps [simp del]

text \<open>
  \<open>Number.prototype.toFixed(f)\<close> on a finite Number \<open>x\<close>: the sign is split off; at
  \<open>10^21\<close> and above the result is that of \<open>Number::toString\<close> (the parameter \<open>tostr\<close>);
  below, \<open>n\<close> is the integer nearest to \<open>x * 10^f\<close>, the larger one of two, its digits
  are padded with zeros to \<open>f + 1\<close> places and the point goes before the last \<open>f\<close>.
\<close>

definition toFixed :: "(real \<Rightarrow> jsstring) \<Rightarrow> nat \<Rightarrow> real \<Rightarrow> jsstring" where
  "toFixed tostr f x0 =
     (let s = (if x0 < 0 then js ''-'' else []);
          x = (if x0 < 0 then - x0 else x0)
      in if x \<ge> 10 ^ 21 then s @ tostr x
         else
           let n = nat \<lfloor>x * 10 ^ f + 1 / 2\<rfloor>;
               m = digits n;
               m = (if f \<noteq> 0 \<and> length m \<le> f then replicate (f + 1 - length m) (digit_char 0) @ m
                    else m);
               k = length m
           in if f \<noteq> 0 then s @ take (k - f) m @ js ''.'' @ drop (k - f) m else s @ m)"

section \<open>The cursor follower\<close>

datatype js_error = TypeError | SyntaxError | ReferenceError | NetworkError

text \<open>
  An element of the page, as far as the scripts touch it. \<open>style_left = Some x\<close> stands
  for the string made of the Number \<open>x\<close> and \<open>px\<close>; \<open>None\<close> is a property never set.
\<close>

record element =
  style_left :: "real option"
  style_top :: "real option"
  style_opacity :: jsstring
  classList :: "jsstring list"

datatype event_target = Document | Interactive nat | Elsewhere

datatype event_type = Mousemove | Mouseenter | Mouseleave

datatype handler = OnMouseMove | OnMouseEnter | OnMouseLeave | OnElementHover | OnElementLeave

text \<open>
  The object of class \<open>CustomCursor\<close>, with what it leaves in the page: the listeners it
  has registered, the animation frames it has requested and that have not run yet, and
  the exceptions of its handlers that nothing caught.
\<close>

record cursor =
  innerCursor :: "element option"
  outerCursor :: "element option"
  innerX :: real
  innerY :: real
  outerX :: real
  outerY :: real
  isHovering :: bool
  easeAmount :: real
  listeners :: "(event_target \<times> event_type \<times> handler) list"
  pending_frames :: nat
  uncaught :: "js_error list"

record navigator =
  maxTouchPoints :: "int option"
  msMaxTouchPoints :: "int option"
  hover_none :: bool

text \<open>\<open>v > 0\<close> on a property that may be \<open>undefined\<close>: \<open>undefined > 0\<close> is false.\<close>

fun positive :: "int option \<Rightarrow> bool" where
  "positive None = False"
| "positive (Some n) = (n > 0)"

definition isTouchDevice :: "navigator \<Rightarrow> bool" where
  "isTouchDevice nav =
     (positive (maxTouchPoints nav) \<or> positive (msMaxTouchPoints nav) \<or> hover_none nav)"

text \<open>
  A handler that reads \<open>style\<close> or \<open>classList\<close> of a marker that \<open>querySelector\<close> did
  not find throws a TypeError there: what it assigned before stays, the rest is not run.
\<close>

definition onMouseMove :: "real \<Rightarrow> real \<Rightarrow> cursor \<Rightarrow> cursor" where
  "onMouseMove clientX clientY c =
     (let c = c\<lparr>innerX := clientX, innerY := clientY\<rparr>
      in case innerCursor c of
           None \<Rightarrow> c\<lparr>uncaught := uncaught c @ [TypeError]\<rparr>
         | Some el \<Rightarrow>
             c\<lparr>innerCursor := Some (el\<lparr>style_left := Some (innerX c), style_top := Some (innerY c)\<rparr>)\<rparr>)"

definition onMouseEnter :: "cursor \<Rightarrow> cursor" where
  "onMouseEnter c =
     (case innerCursor c of
        None \<Rightarrow> c\<lparr>uncaught := uncaught c @ [TypeError]\<rparr>
      | Some el \<Rightarrow>
          (let c = c\<lparr>innerCursor := Some (el\<lparr>style_opacity := js ''1''\<rparr>)\<rparr>
           in case outerCursor c of
                None \<Rightarrow> c\<lparr>uncaught := uncaught c @ [TypeError]\<rparr>
              | Some el' \<Rightarrow> c\<lparr>outerCursor := Some (el'\<lparr>style_opacity := js ''0.6''\<rparr>)\<rparr>))"

definition onMouseLeave :: "cursor \<Rightarrow> cursor" where
  "onMouseLeave c =
     (case innerCursor c of
        None \<Rightarrow> c\<lparr>uncaught := uncaught c @ [TypeError]\<rparr>
      | Some el \<Rightarrow>
          (let c = c\<lparr>innerCursor := Some (el\<lparr>style_opacity := js ''0''\<rparr>)\<rparr>
           in case outerCursor c of
                None \<Rightarrow> c\<lparr>uncaught := uncaught c @ [TypeError]\<rparr>
              | Some el' \<Rightarrow> c\<lparr>outerCursor := Some (el'\<lparr>style_opacity := js ''0''\<rparr>)\<rparr>))"

definition onElementHover :: "cursor \<Rightarrow> cursor" where
  "onElementHover c =
     (let c = c\<lparr>isHovering := True\<rparr>
      in case outerCursor c of
           None \<Rightarrow> c\<lparr>uncaught := uncaught c @ [TypeError]\<rparr>
         | Some el \<Rightarrow>
             c\<lparr>outerCursor := Some (el\<lparr>classList :=
                 (if js ''cursor-hover'' \<in> set (classList el) then classList el
                  else classList el @ [js ''cursor-hover''])\<rparr>)\<rparr>)"

definition onElementLeave :: "cursor \<Rightarrow> cursor" where
  "onElementLeave c =
     (let c = c\<lparr>isHovering := False\<rparr>
      in case outerCursor c of
           None \<Rightarrow> c\<lparr>uncaught := uncaught c @ [TypeError]\<rparr>
         | Some el \<Rightarrow>
             c\<lparr>outerCursor := Some (el\<lparr>classList := removeAll (js ''cursor-hover'') (classList el)\<rparr>)\<rparr>)"

text \<open>
  \<open>animate\<close>: \<open>outer += (inner - outer) * easeAmount\<close> on both coordinates, the marker
  moved there, and the next frame requested.
\<close>

definition animate :: "(real \<Rightarrow> real) \<Rightarrow> cursor \<Rightarrow> cursor" where
  "animate rnd c =
     (let c = c\<lparr>outerX := rnd (outerX c + rnd (rnd (innerX c - outerX c) * easeAmount c))\<rparr>;
          c = c\<lparr>outerY := rnd (outerY c + rnd (rnd (innerY c - outerY c) * easeAmount c))\<rparr>
      in case outerCursor c of
           None \<Rightarrow> c\<lparr>uncaught := uncaught c @ [TypeError]\<rparr>
         | Some el \<Rightarrow>
             c\<lparr>outerCursor := Some (el\<lparr>style_left := Some (outerX c), style_top := Some (outerY c)\<rparr>),
               pending_frames := Suc (pending_frames c)\<rparr>)"

definition addHoverListeners :: "nat list \<Rightarrow> cursor \<Rightarrow> cursor" where
  "addHoverListeners interactiveElements c =
     c\<lparr>listeners := listeners c @
        concat (map (\<lambda>el. [(Interactive el, Mouseenter, OnElementHover),
                            (Interactive el, Mouseleave, OnElementLeave)]) interactiveElements)\<rparr>"

definition init :: "(real \<Rightarrow> real) \<Rightarrow> navigator \<Rightarrow> nat list \<Rightarrow> cursor \<Rightarrow> cursor" where
  "init rnd nav interactiveElements c =
     (if isTouchDevice nav then c
      else
        let c = c\<lparr>listeners := listeners c @
                  [(Document, Mousemove, OnMouseMove), (Document, Mouseenter, OnMouseEnter),
                   (Document, Mouseleave, OnMouseLeave)]\<rparr>;
            c = addHoverListeners interactiveElements c
        in animate rnd c)"

text \<open>
  The constructor: \<open>inner\<close> and \<open>outer\<close> are what \<open>querySelector\<close> gave for the two
  markers, \<open>interactiveElements\<close> what \<open>querySelectorAll\<close> gives for the hover selector.
\<close>

definition new_cursor :: "(real \<Rightarrow> real) \<Rightarrow> element option \<Rightarrow> element option \<Rightarrow> cursor" where
  "new_cursor rnd inner outer =
     \<lparr>innerCursor = inner, outerCursor = outer, innerX = 0, innerY = 0, outerX = 0, outerY = 0,
      isHovering = False, easeAmount = rnd (12 / 100), listeners = [], pending_frames = 0,
      uncaught = []\<rparr>"

definition CustomCursor ::
  "(real \<Rightarrow> real) \<Rightarrow> navigator \<Rightarrow> element option \<Rightarrow> element option \<Rightarrow> nat list \<Rightarrow> cursor" where
  "CustomCursor rnd nav inner outer interactiveElements =
     init rnd nav interactiveElements (new_cursor rnd inner outer)"

text \<open>
  What the page does to the object afterwards. A mouse event runs the listeners
  registered on its target for its type, in the order of registration; a \<open>mousemove\<close>
  then bubbles up to the document and runs the listeners registered there, while
  \<open>mouseenter\<close> and \<open>mouseleave\<close> do not bubble. An animation frame runs a requested
  callback, which is \<open>animate\<close>.
\<close>

datatype event = Mouse event_target event_type real real | Frame

fun run_handler :: "real \<Rightarrow> real \<Rightarrow> cursor \<Rightarrow> handler \<Rightarrow> cursor" where
  "run_handler x y c OnMouseMove = onMouseMove x y c"
| "run_handler x y c OnMouseEnter = onMouseEnter c"
| "run_handler x y c OnMouseLeave = onMouseLeave c"
| "run_handler x y c OnElementHover = onElementHover c"
| "run_handler x y c OnElementLeave = onElementLeave c"

fun bubbles :: "event_type \<Rightarrow> bool" where
  "bubbles Mousemove = True"
| "bubbles Mouseenter = False"
| "bubbles Mouseleave = False"

definition handlers_at ::
  "event_target \<Rightarrow> event_type \<Rightarrow> (event_target \<times> event_type \<times> handler) list \<Rightarrow> handler list" where
  "handlers_at tg ty ls = map (\<lambda>l. snd (snd l)) (filter (\<lambda>l. fst l = tg \<and> fst (snd l) = ty) ls)"

fun dispatch :: "(real \<Rightarrow> real) \<Rightarrow> cursor \<Rightarrow> event \<Rightarrow> cursor" where
  "dispatch rnd c (Mouse tg ty x y) =
     foldl (run_handler x y) c
       (handlers_at tg ty (listeners c) @
        (if bubbles ty \<and> tg \<noteq> Document then handlers_at Document ty (listeners c) else []))"
| "dispatch rnd c Frame =
     (if pending_frames c > 0 then animate rnd (c\<lparr>pending_frames := pending_frames c - 1\<rparr>)
      else c)"

text \<open>
  The distance of the follower to the pointer, the quantity the specification speaks of.
\<close>

definition distance :: "cursor \<Rightarrow> real" where
  "distance c = sqrt ((innerX c - outerX c)\<^sup>2 + (innerY c - outerY c)\<^sup>2)"

section \<open>The sensor dashboard\<close>

text \<open>A sensor reading: the three values as decimal strings, and a display time.\<close>

record reading =
  temperature :: jsstring
  humidity :: jsstring
  pressure :: jsstring
  timestamp :: jsstring

text \<open>
  What the script reads from outside: the successive results of \<open>Math.random()\<close> and
  of \<open>toLocaleTimeString\<close> on a new \<open>Date\<close>, with the number of calls made so far; and
  what it writes to the console.
\<close>

record world =
  randoms :: "nat \<Rightarrow> real"
  random_calls :: nat
  time_strings :: "nat \<Rightarrow> jsstring"
  date_calls :: nat
  console :: "(jsstring \<times> js_error) list"

definition math_random :: "world \<Rightarrow> real \<times> world" where
  "math_random w = (randoms w (random_calls w), w\<lparr>random_calls := Suc (random_calls w)\<rparr>)"

definition new_date :: "world \<Rightarrow> jsstring \<times> world" where
  "new_date w = (time_strings w (date_calls w), w\<lparr>date_calls := Suc (date_calls w)\<rparr>)"

definition generateMockData ::
  "(real \<Rightarrow> real) \<Rightarrow> (real \<Rightarrow> jsstring) \<Rightarrow> world \<Rightarrow> reading \<times> world" where
  "generateMockData rnd tostr w =
     (let (now, w) = new_date w;
          (r1, w) = math_random w;
          (r2, w) = math_random w;
          (r3, w) = math_random w
      in (\<lparr>temperature = toFixed tostr 2 (rnd (20 + rnd (r1 * 10))),
           humidity = toFixed tostr 2 (rnd (40 + rnd (r2 * 30))),
           pressure = toFixed tostr 2 (rnd (1013 + rnd (r3 * 5))),
           timestamp = now\<rparr>, w))"

text \<open>
  The rolling histories \<open>this.data\<close>; \<open>'n\<close> is the type of what \<open>parseFloat\<close> returns.
\<close>

record 'n data =
  temperature_series :: "'n list"
  humidity_series :: "'n list"
  pressure_series :: "'n list"
  timestamps :: "jsstring list"

text \<open>The chart of the charting library: its labels, its two series, its redraws.\<close>

record 'n chart =
  labels :: "jsstring list"
  dataset0 :: "'n list"
  dataset1 :: "'n list"
  updates :: nat

text \<open>
  The object of class \<open>DataDashboard\<close> and the three readouts of the page: the text of
  each, or \<open>None\<close> where the page has no such element.
\<close>

record 'n dashboard =
  data :: "'n data"
  chart :: "'n chart option"
  current_temp :: "jsstring option"
  current_humidity :: "jsstring option"
  current_pressure :: "jsstring option"

text \<open>
  The object after its constructor and \<open>initChart\<close>: empty histories, the chart where
  the library and the canvas are there, and the readouts that the page has.
\<close>

definition new_dashboard ::
  "'n chart option \<Rightarrow> jsstring option \<Rightarrow> jsstring option \<Rightarrow> jsstring option \<Rightarrow> 'n dashboard" where
  "new_dashboard ch t h p =
     \<lparr>data = \<lparr>temperature_series = [], humidity_series = [], pressure_series = [], timestamps = []\<rparr>,
      chart = ch, current_temp = t, current_humidity = h, current_pressure = p\<rparr>"

definition updateChart :: "'n dashboard \<Rightarrow> 'n dashboard" where
  "updateChart d =
     (case chart d of
        None \<Rightarrow> d
      | Some ch \<Rightarrow>
          d\<lparr>chart := Some (ch\<lparr>labels := timestamps (data d),
                                dataset0 := temperature_series (data d),
                                dataset1 := humidity_series (data d),
                                updates := Suc (updates ch)\<rparr>)\<rparr>)"

text \<open>\<open>textContent = v\<close> on an element that may be missing.\<close>

definition set_text :: "jsstring \<Rightarrow> jsstring option \<Rightarrow> jsstring option" where
  "set_text v el = (case el of None \<Rightarrow> None | Some old \<Rightarrow> Some v)"

definition updateDashboard :: "(jsstring \<Rightarrow> 'n) \<Rightarrow> reading \<Rightarrow> 'n dashboard \<Rightarrow> 'n dashboard" where
  "updateDashboard parseFloat r d =
     (let d = d\<lparr>current_temp := set_text (temperature r @ [0xB0, 0x43]) (current_temp d)\<rparr>;
          d = d\<lparr>current_humidity := set_text (humidity r @ js ''%'') (current_humidity d)\<rparr>;
          d = d\<lparr>current_pressure := set_text (pressure r @ js '' hPa'') (current_pressure d)\<rparr>;
          h = data d;
          h = h\<lparr>temperature_series := temperature_series h @ [parseFloat (temperature r)]\<rparr>;
          h = h\<lparr>humidity_series := humidity_series h @ [parseFloat (humidity r)]\<rparr>;
          h = h\<lparr>pressure_series := pressure_series h @ [parseFloat (pressure r)]\<rparr>;
          h = h\<lparr>timestamps := timestamps h @ [timestamp r]\<rparr>;
          h = (if length (temperature_series h) > 20
               then h\<lparr>temperature_series := tl (temperature_series h),
                      humidity_series := tl (humidity_series h),
                      pressure_series := tl (pressure_series h),
                      timestamps := tl (timestamps h)\<rparr>
               else h);
          d = d\<lparr>data := h\<rparr>
      in if chart d \<noteq> None then updateChart d else d)"

text \<open>
  One call of \<open>fetch\<close>, as the script meets it: it throws, or its promise is rejected, or
  it gives a response, whose \<open>json()\<close> in turn is rejected or gives a reading.
\<close>

datatype json_result = JsonRejects js_error | JsonResolves reading

record response =
  ok :: bool
  json :: json_result

datatype fetch_result = FetchThrows js_error | FetchRejects js_error | FetchResolves response

text \<open>
  What \<open>await\<close> leaves in \<open>response\<close>: the response, or the object that the rejection
  handler returned, which has no \<open>ok\<close>.
\<close>

datatype awaited = Response response | Object reading

fun response_ok :: "awaited \<Rightarrow> bool" where
  "response_ok (Response r) = ok r"
| "response_ok (Object r) = False"

definition mock_update ::
  "(real \<Rightarrow> real) \<Rightarrow> (real \<Rightarrow> jsstring) \<Rightarrow> (jsstring \<Rightarrow> 'n) \<Rightarrow> world \<times> 'n dashboard \<Rightarrow>
     world \<times> 'n dashboard" where
  "mock_update rnd tostr parseFloat s =
     (let (m, w) = generateMockData rnd tostr (fst s) in (w, updateDashboard parseFloat m (snd s)))"

definition catch_block ::
  "(real \<Rightarrow> real) \<Rightarrow> (real \<Rightarrow> jsstring) \<Rightarrow> (jsstring \<Rightarrow> 'n) \<Rightarrow> js_error \<Rightarrow> world \<times> 'n dashboard \<Rightarrow>
     world \<times> 'n dashboard" where
  "catch_block rnd tostr parseFloat error s =
     (let w = (fst s)\<lparr>console := console (fst s) @ [(js ''Using mock data:'', error)]\<rparr>
      in mock_update rnd tostr parseFloat (w, snd s))"

text \<open>The statements after \<open>await fetch(...)\<close>, with \<open>response\<close> in hand.\<close>

definition after_fetch ::
  "(real \<Rightarrow> real) \<Rightarrow> (real \<Rightarrow> jsstring) \<Rightarrow> (jsstring \<Rightarrow> 'n) \<Rightarrow> awaited \<Rightarrow> world \<times> 'n dashboard \<Rightarrow>
     world \<times> 'n dashboard" where
  "after_fetch rnd tostr parseFloat response s =
     (if response_ok response then
        (case response of
           Response r \<Rightarrow>
             (case json r of
                JsonRejects error \<Rightarrow> catch_block rnd tostr parseFloat error s
              | JsonResolves d \<Rightarrow> (fst s, updateDashboard parseFloat d (snd s)))
         | Object m \<Rightarrow> catch_block rnd tostr parseFloat TypeError s)
      else mock_update rnd tostr parseFloat s)"

definition fetchESP32Data ::
  "(real \<Rightarrow> real) \<Rightarrow> (real \<Rightarrow> jsstring) \<Rightarrow> (jsstring \<Rightarrow> 'n) \<Rightarrow> fetch_result \<Rightarrow> world \<times> 'n dashboard \<Rightarrow>
     world \<times> 'n dashboard" where
  "fetchESP32Data rnd tostr parseFloat fetched s =
     (case fetched of
        FetchThrows error \<Rightarrow> catch_block rnd tostr parseFloat error s
      | FetchRejects error \<Rightarrow>
          (let (m, w) = generateMockData rnd tostr (fst s)
           in after_fetch rnd tostr parseFloat (Object m) (w, snd s))
      | FetchResolves r \<Rightarrow> after_fetch rnd tostr parseFloat (Response r) s)"

section \<open>Smooth scrolling\<close>

text \<open>
  \<open>document.querySelector(href)\<close>: a SyntaxError when \<open>href\<close> is no selector, \<open>null\<close>, or
  an element.
\<close>

datatype query_result = Throws | Null | Element nat

text \<open>
  A click on an anchor: whether \<open>preventDefault\<close> was called, the scrolls started
  (the element, \<open>behavior\<close>, and \<open>block\<close> where given), the exceptions nothing caught.
\<close>

record click =
  defaultPrevented :: bool
  scrolls :: "(nat \<times> jsstring \<times> jsstring option) list"
  click_uncaught :: "js_error list"

definition new_click :: click where
  "new_click = \<lparr>defaultPrevented = False, scrolls = [], click_uncaught = []\<rparr>"

text \<open>The handler of the first script.\<close>

definition smooth_scroll_click :: "(jsstring \<Rightarrow> query_result) \<Rightarrow> jsstring \<Rightarrow> click \<Rightarrow> click" where
  "smooth_scroll_click querySelector href e =
     (if href \<noteq> js ''#'' then
        (case querySelector href of
           Throws \<Rightarrow> e\<lparr>click_uncaught := click_uncaught e @ [SyntaxError]\<rparr>
         | Null \<Rightarrow> e
         | Element el \<Rightarrow>
             (let e = e\<lparr>defaultPrevented := True\<rparr>
              in case querySelector href of
                   Throws \<Rightarrow> e\<lparr>click_uncaught := click_uncaught e @ [SyntaxError]\<rparr>
                 | Null \<Rightarrow> e\<lparr>click_uncaught := click_uncaught e @ [TypeError]\<rparr>
                 | Element el' \<Rightarrow> e\<lparr>scrolls := scrolls e @ [(el', js ''smooth'', Some (js ''start''))]\<rparr>))
      else e)"

text \<open>The handler that \<open>initSmoothScroll\<close> of the second script registers.\<close>

definition initSmoothScroll_click :: "(jsstring \<Rightarrow> query_result) \<Rightarrow> jsstring \<Rightarrow> click \<Rightarrow> click" where
  "initSmoothScroll_click querySelector href e =
     (if href \<noteq> js ''#'' then
        (let e = e\<lparr>defaultPrevented := True\<rparr>
         in case querySelector href of
              Throws \<Rightarrow> e\<lparr>click_uncaught := click_uncaught e @ [SyntaxError]\<rparr>
            | Null \<Rightarrow> e
            | Element target \<Rightarrow> e\<lparr>scrolls := scrolls e @ [(target, js ''smooth'', None)]\<rparr>)
      else e)"

section \<open>The contact form\<close>

record notification =
  textContent :: jsstring
  backgroundColor :: jsstring

text \<open>
  The form: its entries as \<open>FormData\<close> lists them, and the entries \<open>reset()\<close> restores.
  The page: the form, the notifications appended to the body, the console, and whether
  the submission was cancelled.
\<close>

record form =
  entries :: "(jsstring \<times> jsstring) list"
  default_entries :: "(jsstring \<times> jsstring) list"

record contact_page =
  contactForm :: form
  body :: "notification list"
  form_console :: "(jsstring \<times> (jsstring \<rightharpoonup> jsstring)) list"
  submit_prevented :: bool

text \<open>\<open>Object.fromEntries\<close>: of two entries of one name the later one stays.\<close>

definition fromEntries :: "(jsstring \<times> jsstring) list \<Rightarrow> (jsstring \<rightharpoonup> jsstring)" where
  "fromEntries es = map_of (rev es)"

text \<open>\<open>!v\<close> on a property that is a string or \<open>undefined\<close>.\<close>

fun falsy :: "jsstring option \<Rightarrow> bool" where
  "falsy None = True"
| "falsy (Some v) = (v = [])"

text \<open>\<open>ToString\<close> on the same.\<close>

fun to_string :: "jsstring option \<Rightarrow> jsstring" where
  "to_string None = js ''undefined''"
| "to_string (Some v) = v"

definition showNotification :: "jsstring \<Rightarrow> jsstring \<Rightarrow> contact_page \<Rightarrow> contact_page" where
  "showNotification message type p =
     (let bgColor = (if type = js ''success'' then js ''#2ecc71'' else js ''#e74c3c'')
      in p\<lparr>body := body p @ [\<lparr>textContent = message, backgroundColor = bgColor\<rparr>]\<rparr>)"

definition reset :: "form \<Rightarrow> form" where
  "reset f = f\<lparr>entries := default_entries f\<rparr>"

definition fill_all_fields :: jsstring where
  "fill_all_fields = js ''Bitte f'' @ [0xFC] @ js ''lle alle Felder aus!''"

definition give_valid_email :: jsstring where
  "give_valid_email = js ''Bitte gib eine g'' @ [0xFC] @ js ''ltige E-Mail ein!''"

definition thank_you :: jsstring where
  "thank_you =
     js ''Danke f'' @ [0xFC] @ js ''r deine Nachricht! Wir kontaktieren dich bald.''"

definition submit :: "contact_page \<Rightarrow> contact_page" where
  "submit p =
     (let p = p\<lparr>submit_prevented := True\<rparr>;
          formData = entries (contactForm p);
          data = fromEntries formData
      in if falsy (data (js ''name'')) \<or> falsy (data (js ''email'')) \<or> falsy (data (js ''message''))
         then showNotification fill_all_fields (js ''error'') p
         else if \<not> isValidEmail (to_string (data (js ''email'')))
         then showNotification give_valid_email (js ''error'') p
         else
           let p = showNotification thank_you (js ''success'') p;
               p = p\<lparr>contactForm := reset (contactForm p)\<rparr>
           in p\<lparr>form_console := form_console p @ [(js ''Formulardaten:'', data)]\<rparr>)"

section \<open>The properties, in the words of the specification\<close>

text \<open>
  The shape of a valid address: no white space, exactly one \<open>@\<close>, which is not the first
  code unit, and after it a \<open>.\<close> that neither follows the \<open>@\<close> at once nor is the last
  code unit.
\<close>

definition local_char :: "code_unit \<Rightarrow> bool" where
  "local_char c = (\<not> is_white_space c \<and> c \<noteq> 0x40)"

definition after_at :: "jsstring \<Rightarrow> jsstring" where
  "after_at s = tl (dropWhile (\<lambda>c. c \<noteq> 0x40) s)"

definition email_shape :: "jsstring \<Rightarrow> bool" where
  "email_shape s =
     ((\<forall>c \<in> set s. \<not> is_white_space c) \<and>
      count_list s 0x40 = 1 \<and> take 1 s \<noteq> [0x40] \<and>
      (\<exists>i. 0 < i \<and> Suc i < length (after_at s) \<and> after_at s ! i = 0x2E))"

text \<open>
  A decimal string with exactly two digits after the point, and the number it denotes.
\<close>

definition is_digit :: "code_unit \<Rightarrow> bool" where
  "is_digit c = (0x30 \<le> c \<and> c \<le> 0x39)"

definition number_of :: "jsstring \<Rightarrow> nat" where
  "number_of s = foldl (\<lambda>a c. 10 * a + (unat c - 48)) 0 s"

definition two_decimals :: "jsstring \<Rightarrow> bool" where
  "two_decimals s =
     (let a = takeWhile (\<lambda>c. c \<noteq> 0x2E) s; b = dropWhile (\<lambda>c. c \<noteq> 0x2E) s
      in a \<noteq> [] \<and> list_all is_digit a \<and> length b = 3 \<and> list_all is_digit (tl b))"

definition decimal_value :: "jsstring \<Rightarrow> real" where
  "decimal_value s =
     real (number_of (takeWhile (\<lambda>c. c \<noteq> 0x2E) s)) +
     real (number_of (tl (dropWhile (\<lambda>c. c \<noteq> 0x2E) s))) / 100"

text \<open>The failures of a fetch cycle: of \<open>fetch\<close>, of the status, of \<open>json()\<close>.\<close>

fun fetch_failed :: "fetch_result \<Rightarrow> bool" where
  "fetch_failed (FetchThrows error) = True"
| "fetch_failed (FetchRejects error) = True"
| "fetch_failed (FetchResolves r) =
     (\<not> ok r \<or> (case json r of JsonRejects error \<Rightarrow> True | JsonResolves d \<Rightarrow> False))"

text \<open>An element as the page has it before any script touched it.\<close>

definition blank_element :: element where
  "blank_element = \<lparr>style_left = None, style_top = None, style_opacity = [], classList = []\<rparr>"

text \<open>The readings \<open>rs\<close> appended one after the other, the first one first.\<close>

definition append_all :: "(jsstring \<Rightarrow> 'n) \<Rightarrow> reading list \<Rightarrow> 'n dashboard \<Rightarrow> 'n dashboard" where
  "append_all parseFloat rs d = foldl (\<lambda>d r. updateDashboard parseFloat r d) d rs"

text \<open>The last 20 entries of a sequence.\<close>

definition last20 :: "'a list \<Rightarrow> 'a list" where
  "last20 xs = drop (length xs - 20) xs"

text \<open>Twenty-one readings, numbered 1 to 21.\<close>

definition sample_readings :: "reading list" where
  "sample_readings =
     map (\<lambda>i. \<lparr>temperature = digits (20 + i), humidity = digits (40 + i),
                pressure = digits (1013 + i), timestamp = digits i\<rparr>) [1..<22]"

text \<open>The integer that \<open>toFixed(2)\<close> rounds to.\<close>

definition hundredths :: "real \<Rightarrow> nat" where
  "hundredths x = nat \<lfloor>x * 100 + 1 / 2\<rfloor>"

text \<open>A world whose random source gives one half each time.\<close>

definition sample_world :: world where
  "sample_world =
     \<lparr>randoms = (\<lambda>i. 1 / 2), random_calls = 0, time_strings = (\<lambda>i. js ''12:00:00''),
      date_calls = 0, console = []\<rparr>"

text \<open>
  A cycle that ends in the fallback: from the world \<open>w\<close> the script has come to \<open>w0\<close>,
  with the same sources and no call taken back, has generated a mock reading there, and
  has passed it to \<open>updateDashboard\<close>.
\<close>

definition mock_cycle ::
  "(real \<Rightarrow> real) \<Rightarrow> (real \<Rightarrow> jsstring) \<Rightarrow> (jsstring \<Rightarrow> 'n) \<Rightarrow> world \<Rightarrow> world \<Rightarrow> 'n dashboard \<Rightarrow>
     world \<times> 'n dashboard \<Rightarrow> bool" where
  "mock_cycle rnd tostr pf w w0 d result =
     (randoms w0 = randoms w \<and> time_strings w0 = time_strings w \<and>
      random_calls w \<le> random_calls w0 \<and> date_calls w \<le> date_calls w0 \<and>
      result = (snd (generateMockData rnd tostr w0),
                updateDashboard pf (fst (generateMockData rnd tostr w0)) d))"

text \<open>The notification of an error: the message on the colour of errors.\<close>

definition error_toast :: "jsstring \<Rightarrow> notification" where
  "error_toast message = \<lparr>textContent = message, backgroundColor = js ''#e74c3c''\<rparr>"

text \<open>
  The success path of the contact form: the three fields filled in, the address valid.
\<close>

definition all_valid :: "contact_page \<Rightarrow> bool" where
  "all_valid p =
     (let data = fromEntries (entries (contactForm p))
      in \<not> falsy (data (js ''name'')) \<and> \<not> falsy (data (js ''email'')) \<and>
         \<not> falsy (data (js ''message'')) \<and> isValidEmail (to_string (data (js ''email''))))"

text \<open>A form filled in but for the message.\<close>

definition sample_page :: contact_page where
  "sample_page =
     \<lparr>contactForm =
        \<lparr>entries = [(js ''name'', js ''Ann''), (js ''email'', js ''a@b.co''), (js ''message'', js '''')],
         default_entries = [(js ''name'', js ''''), (js ''email'', js ''''), (js ''message'', js '''')]\<rparr>,
      body = [], form_console = [], submit_prevented = False\<rparr>"

text \<open>A device with five touch points.\<close>

definition touch_navigator :: navigator where
  "touch_navigator = \<lparr>maxTouchPoints = Some 5, msMaxTouchPoints = None, hover_none = False\<rparr>"

text \<open>
  One coordinate of \<open>animate\<close> in binary64: the follower at \<open>f\<close> steps toward the pointer
  at \<open>p\<close>.
\<close>

definition approach :: "real \<Rightarrow> real \<Rightarrow> real \<Rightarrow> real" where
  "approach e p f = b64 (f + b64 (b64 (p - f) * e))"


text \<open>
  The ease amount of the constructor, the Number nearest to 0.12. A Number of magnitude
  up to \<open>2^1022\<close>: between two of them no operation of \<open>animate\<close> overflows. A cursor
  with its four coordinates such Numbers, and that ease amount.
\<close>

definition ease64 :: real where
  "ease64 = b64 (12 / 100)"





text \<open>
  The pointer at \<open>x = 1\<close> and the follower one unit in the last place to its right, at
  \<open>x = 1.0000000000000002\<close>.
\<close>

definition above_one :: real where
  "above_one = 1 + 1 / 2 ^ 52"

definition stuck_cursor :: cursor where
  "stuck_cursor =
     (new_cursor b64 (Some blank_element) (Some blank_element))\<lparr>innerX := 1, outerX := above_one\<rparr>"

section \<open>The e-mail pattern\<close>

text \<open>
  The pattern starts with \<open>^\<close>, so only the attempt at index 0 can succeed; each \<open>+\<close>
  takes a non-empty run of code units of its class, and \<open>$\<close> asks for the end.
\<close>

lemma exec_from_AssertStart_Suc: "exec_from (AssertStart # ts) (Suc i) s = False"
  by (induction s arbitrary: i) auto

lemma regex_test_anchored: "regex_test (AssertStart # ts) s = match_here ts 0 s"
  by (cases s) (simp_all add: regex_test_def exec_from_AssertStart_Suc)

lemma match_here_plus:
  "match_here (AtomPlus a # ts) i s \<longleftrightarrow>
     (\<exists>u v. s = u @ v \<and> u \<noteq> [] \<and> list_all (atom_matches a) u \<and> match_here ts (i + length u) v)"
proof (induction s arbitrary: i)
  case Nil
  then show ?case by simp
next
  case (Cons c s)
  show ?case
  proof
    assume "match_here (AtomPlus a # ts) i (c # s)"
    then have c: "atom_matches a c"
      and alt: "match_here (AtomPlus a # ts) (Suc i) s \<or> match_here ts (Suc i) s"
      by simp_all
    from alt show "\<exists>u v. c # s = u @ v \<and> u \<noteq> [] \<and> list_all (atom_matches a) u \<and>
        match_here ts (i + length u) v"
    proof
      assume "match_here (AtomPlus a # ts) (Suc i) s"
      then obtain u v where "s = u @ v" "u \<noteq> []" "list_all (atom_matches a) u"
        "match_here ts (Suc i + length u) v"
        using Cons.IH by blast
      with c have "c # s = (c # u) @ v \<and> c # u \<noteq> [] \<and> list_all (atom_matches a) (c # u) \<and>
        match_here ts (i + length (c # u)) v"
        by simp
      then show ?thesis by blast
    next
      assume "match_here ts (Suc i) s"
      with c have "c # s = [c] @ s \<and> [c] \<noteq> [] \<and> list_all (atom_matches a) [c] \<and>
        match_here ts (i + length [c]) s"
        by simp
      then show ?thesis by blast
    qed
  next
    assume "\<exists>u v. c # s = u @ v \<and> u \<noteq> [] \<and> list_all (atom_matches a) u \<and>
        match_here ts (i + length u) v"
    then obtain u v where uv: "c # s = u @ v" "u \<noteq> []" "list_all (atom_matches a) u"
        "match_here ts (i + length u) v"
      by blast
    then obtain u' where u: "u = c # u'" and s: "s = u' @ v"
      by (cases u) auto
    show "match_here (AtomPlus a # ts) i (c # s)"
    proof (cases "u' = []")
      case True
      with uv u s show ?thesis by simp
    next
      case False
      with uv u s have "match_here (AtomPlus a # ts) (Suc i) s"
        using Cons.IH [of "Suc i"] by auto
      with uv u show ?thesis by simp
    qed
  qed
qed

lemma match_here_atom:
  "match_here (Atom a # ts) i s \<longleftrightarrow> (\<exists>c v. s = c # v \<and> atom_matches a c \<and> match_here ts (Suc i) v)"
  by (cases s) auto

lemma match_here_end: "match_here [AssertEnd] i s \<longleftrightarrow> s = []"
  by simp

lemma atom_matches_not_space_at: "atom_matches not_space_at = local_char"
  by (auto simp: not_space_at_def local_char_def fun_eq_iff)

lemma match_tld:
  "match_here [AtomPlus a, AssertEnd] i s \<longleftrightarrow> s \<noteq> [] \<and> list_all (atom_matches a) s"
  by (auto simp: match_here_plus)

lemma match_domain:
  "match_here [AtomPlus a, Atom (Lit 0x2E), AtomPlus a, AssertEnd] i s \<longleftrightarrow>
     (\<exists>d t. s = d @ 0x2E # t \<and> d \<noteq> [] \<and> t \<noteq> [] \<and>
        list_all (atom_matches a) d \<and> list_all (atom_matches a) t)"
  unfolding match_here_plus [of a "Atom _ # _"] match_here_atom match_tld atom_matches.simps
  by blast

lemma match_local:
  "match_here [AtomPlus a, Atom (Lit 0x40), AtomPlus a, Atom (Lit 0x2E), AtomPlus a, AssertEnd] i s \<longleftrightarrow>
     (\<exists>l d t. s = l @ 0x40 # d @ 0x2E # t \<and> l \<noteq> [] \<and> d \<noteq> [] \<and> t \<noteq> [] \<and>
        list_all (atom_matches a) l \<and> list_all (atom_matches a) d \<and> list_all (atom_matches a) t)"
  unfolding match_here_plus [of a "Atom (Lit 0x40) # _"] match_here_atom match_domain atom_matches.simps
  by blast

lemma isValidEmail_decomp:
  "isValidEmail s \<longleftrightarrow>
     (\<exists>l d t. s = l @ 0x40 # d @ 0x2E # t \<and> l \<noteq> [] \<and> d \<noteq> [] \<and> t \<noteq> [] \<and>
        list_all local_char l \<and> list_all local_char d \<and> list_all local_char t)"
  unfolding isValidEmail_def email_regex_def regex_test_anchored match_local
    atom_matches_not_space_at
  by (rule refl)


lemma not_white_at: "\<not> is_white_space 0x40"
  by (simp add: is_white_space_def)

lemma not_white_dot: "\<not> is_white_space 0x2E"
  by (simp add: is_white_space_def)

lemma after_at_split: "0x40 \<notin> set l \<Longrightarrow> after_at (l @ 0x40 # r) = r"
  by (induction l) (simp_all add: after_at_def)

lemma count_at_zero: "list_all local_char l \<Longrightarrow> count_list l 0x40 = 0"
  by (simp add: count_list_0_iff list_all_iff local_char_def) blast

lemma decomp_imp_shape:
  assumes s: "s = l @ 0x40 # d @ 0x2E # t"
    and ne: "l \<noteq> []" "d \<noteq> []" "t \<noteq> []"
    and cl: "list_all local_char l" "list_all local_char d" "list_all local_char t"
  shows "email_shape s"
proof -
  have ws: "\<forall>c \<in> set s. \<not> is_white_space c"
    using cl by (auto simp: s list_all_iff local_char_def not_white_at not_white_dot)
  have cnt: "count_list s 0x40 = 1"
    using cl by (simp add: s count_at_zero)
  have "0x40 \<notin> set l"
    using cl(1) by (auto simp: list_all_iff local_char_def)
  then have aft: "after_at s = d @ 0x2E # t"
    by (simp add: s after_at_split)
  have hd: "take 1 s \<noteq> [0x40]"
    using ne(1) \<open>0x40 \<notin> set l\<close> by (cases l) (auto simp: s)
  have "0 < length d \<and> Suc (length d) < length (after_at s) \<and> after_at s ! length d = 0x2E"
    using ne by (simp add: aft)
  then have "\<exists>i. 0 < i \<and> Suc i < length (after_at s) \<and> after_at s ! i = 0x2E"
    by blast
  with ws cnt hd show ?thesis
    by (simp add: email_shape_def)
qed

lemma shape_imp_decomp:
  assumes "email_shape s"
  shows "\<exists>l d t. s = l @ 0x40 # d @ 0x2E # t \<and> l \<noteq> [] \<and> d \<noteq> [] \<and> t \<noteq> [] \<and>
        list_all local_char l \<and> list_all local_char d \<and> list_all local_char t"
proof -
  from assms have ws: "\<forall>c \<in> set s. \<not> is_white_space c"
    and cnt: "count_list s 0x40 = 1" and hd: "take 1 s \<noteq> [0x40]"
    and ex: "\<exists>i. 0 < i \<and> Suc i < length (after_at s) \<and> after_at s ! i = 0x2E"
    by (simp_all add: email_shape_def)
  from cnt have "0x40 \<in> set s"
    by (metis count_list_0_iff zero_neq_one)
  then obtain l r where s: "s = l @ 0x40 # r" and l: "0x40 \<notin> set l"
    by (meson split_list_first)
  from cnt l have "count_list r 0x40 = 0"
    by (simp add: s count_list_0_iff)
  then have r: "0x40 \<notin> set r"
    by (simp add: count_list_0_iff)
  from hd have lne: "l \<noteq> []"
    by (auto simp: s)
  have aft: "after_at s = r"
    using l by (simp add: s after_at_split)
  from ex obtain i where i: "0 < i" "Suc i < length r" "r ! i = 0x2E"
    by (auto simp: aft)
  define d where "d = take i r"
  define t where "t = drop (Suc i) r"
  have rdt: "r = d @ 0x2E # t"
    using i id_take_nth_drop [of i r] by (simp add: d_def t_def)
  have dne: "d \<noteq> []" and tne: "t \<noteq> []"
    using i by (auto simp: d_def t_def)
  have "list_all local_char l"
    using ws l by (auto simp: s list_all_iff local_char_def)
  moreover have "list_all local_char d" "list_all local_char t"
    using ws r by (auto simp: s rdt list_all_iff local_char_def)
  ultimately show ?thesis
    using s rdt lne dne tne by blast
qed

lemma email_simps:
  "isValidEmail s = exec_from email_regex 0 s"
  by (simp add: isValidEmail_def regex_test_def)

lemma valid_a_b_co: "isValidEmail (js ''a@b.co'')"
  by (simp add: email_simps email_regex_def not_space_at_def js_def is_white_space_def)

lemma invalid_a_b: "\<not> isValidEmail (js ''a@b'')"
  by (simp add: email_simps email_regex_def not_space_at_def js_def is_white_space_def)

lemma invalid_space: "\<not> isValidEmail (js ''a b@c.com'')"
  by (simp add: email_simps email_regex_def not_space_at_def js_def is_white_space_def)

lemma invalid_empty: "\<not> isValidEmail (js '''')"
  by (simp add: email_simps email_regex_def not_space_at_def js_def)

text \<open>
  C1, as stated: \<open>isValidEmail\<close> accepts \<open>a@b.co\<close> and \<open>a@b\<close> and rejects \<open>a b@c.com\<close>
  and the empty string. This fails: the pattern asks for a \<open>.\<close> after the \<open>@\<close>, and
  \<open>a@b\<close> has none.
\<close>

theorem isValidEmail_vectors_counterexample:
  "\<not> (isValidEmail (js ''a@b.co'') \<and> isValidEmail (js ''a@b'') \<and>
      \<not> isValidEmail (js ''a b@c.com'') \<and> \<not> isValidEmail (js ''''))"
  using invalid_a_b by simp

text \<open>
  C1, amended: \<open>isValidEmail\<close> accepts \<open>a@b.co\<close>, and rejects \<open>a@b\<close>, \<open>a b@c.com\<close> and
  the empty string.
\<close>

theorem isValidEmail_vectors:
  "isValidEmail (js ''a@b.co'') \<and> \<not> isValidEmail (js ''a@b'') \<and>
   \<not> isValidEmail (js ''a b@c.com'') \<and> \<not> isValidEmail (js '''')"
  using valid_a_b_co invalid_a_b invalid_space invalid_empty by simp

text \<open>
  C10: \<open>isValidEmail\<close> accepts a string if and only if it has no white space, exactly
  one \<open>@\<close>, which is not its first code unit, and after the \<open>@\<close> a \<open>.\<close> that is neither
  the code unit right after the \<open>@\<close> nor the last one.
\<close>

theorem isValidEmail_iff_shape: "isValidEmail s \<longleftrightarrow> email_shape s"
  using decomp_imp_shape shape_imp_decomp unfolding isValidEmail_decomp by blast

theorem isValidEmail_iff_shape_witness:
  "isValidEmail (js ''a@b.co'') \<and> email_shape (js ''a@b.co'') \<and>
   \<not> isValidEmail (js ''a@b'') \<and> \<not> email_shape (js ''a@b'')"
  using isValidEmail_iff_shape [of "js ''a@b.co''"] isValidEmail_iff_shape [of "js ''a@b''"]
    valid_a_b_co invalid_a_b
  by simp

section \<open>The rolling histories\<close>

lemma data_updateChart: "data (updateChart d) = data d"
  by (simp add: updateChart_def split: option.splits)

lemma data_updateDashboard:
  "data (updateDashboard pf r d) =
     (let h = \<lparr>temperature_series = temperature_series (data d) @ [pf (temperature r)],
               humidity_series = humidity_series (data d) @ [pf (humidity r)],
               pressure_series = pressure_series (data d) @ [pf (pressure r)],
               timestamps = timestamps (data d) @ [timestamp r]\<rparr>
      in if length (temperature_series (data d)) \<ge> 20
         then \<lparr>temperature_series = tl (temperature_series h), humidity_series = tl (humidity_series h),
               pressure_series = tl (pressure_series h), timestamps = tl (timestamps h)\<rparr>
         else h)"
  by (simp add: updateDashboard_def Let_def data_updateChart)

lemma last20_snoc:
  "last20 (xs @ [x]) = (if length xs \<ge> 20 then tl (last20 xs @ [x]) else last20 xs @ [x])"
proof (cases "length xs \<ge> 20")
  case True
  then have "drop (length xs - 20) xs \<noteq> []" by simp
  then have "tl (drop (length xs - 20) xs @ [x]) = drop (Suc (length xs - 20)) xs @ [x]"
    by (simp add: drop_Suc tl_drop)
  moreover have "Suc (length xs) - 20 = Suc (length xs - 20)" using True by simp
  ultimately show ?thesis using True by (simp add: last20_def)
next
  case False
  then show ?thesis by (simp add: last20_def)
qed

lemma length_last20: "length (last20 xs) = min (length xs) 20"
  by (simp add: last20_def)

lemma append_all_snoc:
  "append_all pf (rs @ [r]) d = updateDashboard pf r (append_all pf rs d)"
  by (simp add: append_all_def)

lemma append_all_data:
  "data (append_all pf rs (new_dashboard ch t h p)) =
     \<lparr>temperature_series = last20 (map (\<lambda>r. pf (temperature r)) rs),
      humidity_series = last20 (map (\<lambda>r. pf (humidity r)) rs),
      pressure_series = last20 (map (\<lambda>r. pf (pressure r)) rs),
      timestamps = last20 (map timestamp rs)\<rparr>"
proof (induction rs rule: rev_induct)
  case Nil
  show ?case by (simp add: append_all_def new_dashboard_def last20_def)
next
  case (snoc r rs)
  show ?case
    unfolding append_all_snoc data_updateDashboard snoc.IH
    by (simp add: last20_snoc length_last20)
qed

text \<open>
  C2: after any sequence of readings appended by \<open>updateDashboard\<close> to empty histories,
  none of the four histories has more than 20 entries and all four have the same length;
  after 21 readings each history holds the readings 2 to 21, in their order.
\<close>

theorem rolling_histories:
  "(let h = data (append_all pf rs (new_dashboard ch t0 h0 p0))
    in length (temperature_series h) \<le> 20 \<and>
       length (humidity_series h) = length (temperature_series h) \<and>
       length (pressure_series h) = length (temperature_series h) \<and>
       length (timestamps h) = length (temperature_series h) \<and>
       (length rs = 21 \<longrightarrow>
          temperature_series h = map (\<lambda>r. pf (temperature r)) (tl rs) \<and>
          humidity_series h = map (\<lambda>r. pf (humidity r)) (tl rs) \<and>
          pressure_series h = map (\<lambda>r. pf (pressure r)) (tl rs) \<and>
          timestamps h = map timestamp (tl rs)))"
  unfolding append_all_data
  by (simp add: length_last20 last20_def drop_Suc drop_map)

theorem rolling_histories_witness:
  "length sample_readings = 21 \<and>
   temperature_series (data (append_all (\<lambda>s. s) sample_readings (new_dashboard None None None None))) =
     map temperature (tl sample_readings) \<and>
   timestamps (data (append_all (\<lambda>s. s) sample_readings (new_dashboard None None None None))) =
     map timestamp (tl sample_readings)"
proof -
  have len: "length sample_readings = 21"
    by (simp add: sample_readings_def)
  show ?thesis
    using len rolling_histories [of "\<lambda>s. s" sample_readings None None None None]
    by (simp add: Let_def)
qed

section \<open>The mock readings\<close>

lemma digit_char_unat: "d < 10 \<Longrightarrow> unat (digit_char d) = 48 + d"
  unfolding digit_char_def by (subst unat_of_nat) simp

lemma is_digit_digit_char: "d < 10 \<Longrightarrow> is_digit (digit_char d)"
  by (simp add: is_digit_def word_le_nat_alt digit_char_unat)

lemma digits_all: "list_all is_digit (digits n)"
proof (induction n rule: digits.induct)
  case (1 n)
  then show ?case
    by (subst digits.simps) (simp add: is_digit_digit_char)
qed

lemma number_of_snoc: "number_of (s @ [c]) = 10 * number_of s + (unat c - 48)"
  by (simp add: number_of_def)

lemma number_of_single: "number_of [c] = unat c - 48"
  by (simp add: number_of_def)

lemma number_of_digits: "number_of (digits n) = n"
proof (induction n rule: digits.induct)
  case (1 n)
  show ?case
  proof (cases "n < 10")
    case True
    then show ?thesis
      by (subst digits.simps) (simp add: number_of_single digit_char_unat)
  next
    case False
    then show ?thesis
      using 1 by (subst digits.simps) (simp add: number_of_snoc digit_char_unat)
  qed
qed

lemma is_digit_not_dot: "is_digit c \<Longrightarrow> c \<noteq> 0x2E"
  by (auto simp: is_digit_def)

lemma digits_no_dot: "\<forall>c \<in> set (digits n). c \<noteq> 0x2E"
  using digits_all [of n] is_digit_not_dot by (auto simp: list_all_iff)

lemma digits_ne: "digits n \<noteq> []"
  by (subst digits.simps) simp

lemma digits_hundred:
  assumes "n \<ge> 100"
  shows "digits n = digits (n div 100) @ [digit_char (n div 10 mod 10), digit_char (n mod 10)]"
proof -
  have big: "\<not> n < 10" "\<not> n div 10 < 10"
    using assms by presburger+
  have "digits n = digits (n div 10) @ [digit_char (n mod 10)]"
    using big(1) by (subst digits.simps) simp
  moreover have "digits (n div 10) = digits (n div 10 div 10) @ [digit_char (n div 10 mod 10)]"
    using big(2) by (subst digits.simps) simp
  moreover have "n div 10 div 10 = n div 100"
    by (simp add: div_mult2_eq [symmetric])
  ultimately show ?thesis by simp
qed

lemma two_decimals_shape:
  "two_decimals (digits k @ [0x2E, digit_char a, digit_char b])" if "a < 10" "b < 10"
  using that digits_no_dot [of k]
  by (simp add: two_decimals_def takeWhile_append2 dropWhile_append2 digits_ne digits_all
      is_digit_digit_char)

lemma decimal_value_shape:
  "decimal_value (digits k @ [0x2E, digit_char a, digit_char b]) = real k + real (10 * a + b) / 100"
  if "a < 10" "b < 10"
  using that digits_no_dot [of k]
  by (simp add: decimal_value_def takeWhile_append2 dropWhile_append2 number_of_digits
      number_of_snoc [of "[c]" for c, simplified] number_of_single digit_char_unat)

lemma toFixed_2:
  assumes "0 \<le> x" "x < 10 ^ 21" "hundredths x \<ge> 100"
  shows "toFixed tostr 2 x =
     digits (hundredths x div 100) @
     [0x2E, digit_char (hundredths x div 10 mod 10), digit_char (hundredths x mod 10)]"
proof -
  define n where "n = hundredths x"
  define hi where "hi = digits (n div 100)"
  define lo where "lo = [digit_char (n div 10 mod 10), digit_char (n mod 10)]"
  have m: "digits n = hi @ lo"
    using assms(3) digits_hundred [of n] by (simp add: n_def hi_def lo_def)
  have n: "nat \<lfloor>x * 100 + 1 / 2\<rfloor> = n"
    by (simp add: n_def hundredths_def)
  have len: "length lo = 2"
    by (simp add: lo_def)
  have hi: "hi \<noteq> []"
    by (simp add: hi_def digits_ne)
  have pos: "\<not> x < 0" and small: "\<not> x \<ge> 10 ^ 21"
    using assms(1,2) by simp_all
  have "toFixed tostr 2 x = take (length (hi @ lo) - 2) (hi @ lo) @ js ''.'' @
      drop (length (hi @ lo) - 2) (hi @ lo)"
    using pos small len hi by (simp add: toFixed_def Let_def n m)
  also have "\<dots> = hi @ js ''.'' @ lo"
    using len by simp
  finally show ?thesis
    by (simp add: n_def hi_def lo_def js_def)
qed

lemma rounding_int: "rounding rnd \<Longrightarrow> \<bar>k\<bar> \<le> 2 ^ 53 \<Longrightarrow> rnd (real_of_int k) = real_of_int k"
  by (simp add: rounding_def)

lemma rounding_mono: "rounding rnd \<Longrightarrow> x \<le> y \<Longrightarrow> rnd x \<le> rnd y"
  by (simp add: rounding_def monoD)

lemma scaled_random_range:
  assumes rnd: "rounding rnd" and r: "0 \<le> r" "r < 1"
    and a: "0 \<le> a" "0 \<le> b" "a + b \<le> 2 ^ 53"
  shows "real_of_int a \<le> rnd (real_of_int a + rnd (r * real_of_int b)) \<and>
         rnd (real_of_int a + rnd (r * real_of_int b)) \<le> real_of_int (a + b)"
proof -
  have exact: "rnd 0 = 0" "rnd (real_of_int a) = real_of_int a" "rnd (real_of_int b) = real_of_int b"
    "rnd (real_of_int (a + b)) = real_of_int (a + b)"
    using rounding_int [OF rnd, of 0] rounding_int [OF rnd, of a] rounding_int [OF rnd, of b]
      rounding_int [OF rnd, of "a + b"] a
    by simp_all
  have "0 \<le> r * real_of_int b" "r * real_of_int b \<le> real_of_int b"
    using r a(2) by (simp_all add: mult_left_le_one_le)
  then have "rnd 0 \<le> rnd (r * real_of_int b)" "rnd (r * real_of_int b) \<le> rnd (real_of_int b)"
    using rounding_mono [OF rnd] by blast+
  then have "real_of_int a \<le> real_of_int a + rnd (r * real_of_int b)"
    "real_of_int a + rnd (r * real_of_int b) \<le> real_of_int (a + b)"
    using exact by simp_all
  then have "rnd (real_of_int a) \<le> rnd (real_of_int a + rnd (r * real_of_int b))"
    "rnd (real_of_int a + rnd (r * real_of_int b)) \<le> rnd (real_of_int (a + b))"
    using rounding_mono [OF rnd] by blast+
  then show ?thesis using exact by simp
qed

lemma hundredths_bounds:
  assumes "real lo \<le> x" "x \<le> real hi"
  shows "100 * lo \<le> hundredths x" "hundredths x \<le> 100 * hi"
proof -
  have "real_of_int (int (100 * lo)) \<le> x * 100 + 1 / 2"
    using assms(1) by simp
  then have "int (100 * lo) \<le> \<lfloor>x * 100 + 1 / 2\<rfloor>"
    by (simp only: le_floor_iff)
  then show "100 * lo \<le> hundredths x"
    by (simp add: hundredths_def)
  have "x * 100 + 1 / 2 < real_of_int (int (100 * hi)) + 1"
    using assms(2) by simp
  then have "\<lfloor>x * 100 + 1 / 2\<rfloor> < int (100 * hi) + 1"
    by (simp only: floor_less_iff of_int_add of_int_1)
  then show "hundredths x \<le> 100 * hi"
    by (simp add: hundredths_def)
qed

lemma digits_recompose: "100 * (n div 100) + (10 * (n div 10 mod 10) + n mod 10) = (n::nat)"
proof -
  have "n div 100 = n div 10 div 10"
    by (simp add: div_mult2_eq [symmetric])
  moreover have "10 * (n div 10 div 10) + n div 10 mod 10 = n div 10"
    by (rule mult_div_mod_eq)
  moreover have "10 * (n div 10) + n mod 10 = n"
    by (rule mult_div_mod_eq)
  ultimately show ?thesis by linarith
qed


lemma toFixed_2_range:
  assumes "real lo \<le> x" "x \<le> real hi" "1 \<le> lo" "hi \<le> 10 ^ 20"
  shows "two_decimals (toFixed tostr 2 x) \<and> real lo \<le> decimal_value (toFixed tostr 2 x) \<and>
         decimal_value (toFixed tostr 2 x) \<le> real hi"
proof -
  define n where "n = hundredths x"
  have n: "100 * lo \<le> n" "n \<le> 100 * hi"
    using hundredths_bounds [OF assms(1,2)] by (simp_all add: n_def)
  have x: "0 \<le> x" "x < 10 ^ 21"
  proof -
    show "0 \<le> x" using assms(1) by (meson of_nat_0_le_iff order_trans)
    have "real hi \<le> 10 ^ 20" using assms(4) by (metis of_nat_le_iff of_nat_numeral of_nat_power)
    moreover have "(10::real) ^ 20 < 10 ^ 21" by simp
    ultimately show "x < 10 ^ 21" using assms(2) by linarith
  qed
  have "100 \<le> n" using n(1) assms(3) by simp
  then have fixed: "toFixed tostr 2 x =
      digits (n div 100) @ [0x2E, digit_char (n div 10 mod 10), digit_char (n mod 10)]"
    using toFixed_2 [OF x] by (simp add: n_def)
  have d: "n div 10 mod 10 < 10" "n mod 10 < 10" by simp_all
  have "decimal_value (toFixed tostr 2 x) =
      real (n div 100) + real (10 * (n div 10 mod 10) + n mod 10) / 100"
    unfolding fixed by (rule decimal_value_shape [OF d])
  also have "\<dots> = real (100 * (n div 100) + (10 * (n div 10 mod 10) + n mod 10)) / 100"
    by (simp add: add_divide_distrib)
  also have "\<dots> = real n / 100"
    by (simp only: digits_recompose)
  finally have v: "decimal_value (toFixed tostr 2 x) = real n / 100" .
  have "real (100 * lo) \<le> real n" "real n \<le> real (100 * hi)"
    using n by (simp_all only: of_nat_le_iff)
  then have "real lo \<le> real n / 100" "real n / 100 \<le> real hi"
    by simp_all
  moreover have "two_decimals (toFixed tostr 2 x)"
    unfolding fixed by (rule two_decimals_shape [OF d])
  ultimately show ?thesis using v by simp
qed


lemma generateMockData_eq:
  "generateMockData rnd tostr w =
     (\<lparr>temperature = toFixed tostr 2 (rnd (20 + rnd (randoms w (random_calls w) * 10))),
       humidity = toFixed tostr 2 (rnd (40 + rnd (randoms w (Suc (random_calls w)) * 30))),
       pressure = toFixed tostr 2 (rnd (1013 + rnd (randoms w (Suc (Suc (random_calls w))) * 5))),
       timestamp = time_strings w (date_calls w)\<rparr>,
      w\<lparr>random_calls := Suc (Suc (Suc (random_calls w))), date_calls := Suc (date_calls w)\<rparr>)"
  by (simp add: generateMockData_def math_random_def new_date_def)

lemma rounding_exact: "rounding (\<lambda>x. x)"
  by (simp add: rounding_def mono_def)

lemma sample_mock:
  "fst (generateMockData (\<lambda>x. x) (\<lambda>x. []) sample_world) =
     \<lparr>temperature = js ''25.00'', humidity = js ''55.00'', pressure = js ''1015.50'',
      timestamp = js ''12:00:00''\<rparr>"
  by (simp add: generateMockData_eq sample_world_def toFixed_def Let_def digits.simps
      digit_char_def js_def)

text \<open>
  C4: whatever the random source gives (values from 0 up to, but not, 1), the reading of
  \<open>generateMockData\<close> has a temperature in [20, 30], a humidity in [40, 70] and a
  pressure in [1013, 1018], each written with exactly two digits after the point. The
  arithmetic may round as it likes, as long as it is monotone and exact on integers.
\<close>

theorem generateMockData_ranges:
  assumes "rounding rnd" and "\<forall>i. 0 \<le> randoms w i \<and> randoms w i < 1"
  shows "(let r = fst (generateMockData rnd tostr w)
          in two_decimals (temperature r) \<and>
             20 \<le> decimal_value (temperature r) \<and> decimal_value (temperature r) \<le> 30 \<and>
             two_decimals (humidity r) \<and>
             40 \<le> decimal_value (humidity r) \<and> decimal_value (humidity r) \<le> 70 \<and>
             two_decimals (pressure r) \<and>
             1013 \<le> decimal_value (pressure r) \<and> decimal_value (pressure r) \<le> 1018)"
proof -
  define r1 where "r1 = randoms w (random_calls w)"
  define r2 where "r2 = randoms w (Suc (random_calls w))"
  define r3 where "r3 = randoms w (Suc (Suc (random_calls w)))"
  have r: "0 \<le> r1" "r1 < 1" "0 \<le> r2" "r2 < 1" "0 \<le> r3" "r3 < 1"
    using assms(2) by (simp_all add: r1_def r2_def r3_def)
  have t: "real 20 \<le> rnd (20 + rnd (r1 * 10))" "rnd (20 + rnd (r1 * 10)) \<le> real 30"
    using scaled_random_range [OF assms(1) r(1,2), of 20 10] by simp_all
  have h: "real 40 \<le> rnd (40 + rnd (r2 * 30))" "rnd (40 + rnd (r2 * 30)) \<le> real 70"
    using scaled_random_range [OF assms(1) r(3,4), of 40 30] by simp_all
  have p: "real 1013 \<le> rnd (1013 + rnd (r3 * 5))" "rnd (1013 + rnd (r3 * 5)) \<le> real 1018"
    using scaled_random_range [OF assms(1) r(5,6), of 1013 5] by simp_all
  show ?thesis
    unfolding generateMockData_eq Let_def fst_conv reading.simps r1_def [symmetric]
      r2_def [symmetric] r3_def [symmetric]
    using toFixed_2_range [OF t, of tostr] toFixed_2_range [OF h, of tostr]
      toFixed_2_range [OF p, of tostr]
    by simp
qed

theorem generateMockData_ranges_witness:
  "(let r = fst (generateMockData (\<lambda>x. x) (\<lambda>x. []) sample_world)
    in r = \<lparr>temperature = js ''25.00'', humidity = js ''55.00'', pressure = js ''1015.50'',
             timestamp = js ''12:00:00''\<rparr> \<and>
       two_decimals (temperature r) \<and>
       20 \<le> decimal_value (temperature r) \<and> decimal_value (temperature r) \<le> 30 \<and>
       two_decimals (humidity r) \<and>
       40 \<le> decimal_value (humidity r) \<and> decimal_value (humidity r) \<le> 70 \<and>
       two_decimals (pressure r) \<and>
       1013 \<le> decimal_value (pressure r) \<and> decimal_value (pressure r) \<le> 1018)"
proof -
  have "\<forall>i. 0 \<le> randoms sample_world i \<and> randoms sample_world i < 1"
    by (simp add: sample_world_def)
  from generateMockData_ranges [OF rounding_exact this, of "\<lambda>x. []"] sample_mock
  show ?thesis by (simp add: Let_def)
qed

section \<open>The fetch cycle\<close>

text \<open>
  A cycle is taken as one step: nothing of the object or of the page is read or written
  before the last \<open>await\<close> has returned.
\<close>

lemma mock_update_eq:
  "mock_update rnd tostr pf (w, d) =
     (snd (generateMockData rnd tostr w), updateDashboard pf (fst (generateMockData rnd tostr w)) d)"
  by (simp add: mock_update_def split_beta)

lemma catch_block_eq:
  "catch_block rnd tostr pf error (w, d) =
     mock_update rnd tostr pf (w\<lparr>console := console w @ [(js ''Using mock data:'', error)]\<rparr>, d)"
  by (simp add: catch_block_def)

lemma fetch_throws:
  "fetchESP32Data rnd tostr pf (FetchThrows error) (w, d) = catch_block rnd tostr pf error (w, d)"
  by (simp add: fetchESP32Data_def)

lemma fetch_rejects:
  "fetchESP32Data rnd tostr pf (FetchRejects error) (w, d) =
     mock_update rnd tostr pf (snd (generateMockData rnd tostr w), d)"
  by (simp add: fetchESP32Data_def after_fetch_def split_beta)

lemma fetch_not_ok:
  "\<not> ok r \<Longrightarrow> fetchESP32Data rnd tostr pf (FetchResolves r) (w, d) = mock_update rnd tostr pf (w, d)"
  by (simp add: fetchESP32Data_def after_fetch_def)

lemma fetch_json_rejects:
  "ok r \<Longrightarrow> json r = JsonRejects error \<Longrightarrow>
     fetchESP32Data rnd tostr pf (FetchResolves r) (w, d) = catch_block rnd tostr pf error (w, d)"
  by (simp add: fetchESP32Data_def after_fetch_def)

lemma fetch_json_resolves:
  "ok r \<Longrightarrow> json r = JsonResolves m \<Longrightarrow>
     fetchESP32Data rnd tostr pf (FetchResolves r) (w, d) = (w, updateDashboard pf m d)"
  by (simp add: fetchESP32Data_def after_fetch_def)

lemma mock_cycle_here: "mock_cycle rnd tostr pf w w d (mock_update rnd tostr pf (w, d))"
  by (simp add: mock_cycle_def mock_update_eq)

lemma mock_cycle_logged:
  "mock_cycle rnd tostr pf w (w\<lparr>console := c\<rparr>) d (mock_update rnd tostr pf (w\<lparr>console := c\<rparr>, d))"
  by (simp add: mock_cycle_def mock_update_eq)

lemma mock_cycle_second:
  "mock_cycle rnd tostr pf w (snd (generateMockData rnd tostr w)) d
     (mock_update rnd tostr pf (snd (generateMockData rnd tostr w), d))"
  by (simp add: mock_cycle_def mock_update_eq generateMockData_eq [of rnd tostr w])

lemma failed_fetch_mock_cycle:
  assumes "fetch_failed fetched"
  shows "\<exists>w0. mock_cycle rnd tostr pf w w0 d (fetchESP32Data rnd tostr pf fetched (w, d))"
proof (cases fetched)
  case (FetchThrows error)
  show ?thesis
    unfolding FetchThrows fetch_throws catch_block_eq
    by (rule exI, rule mock_cycle_logged)
next
  case (FetchRejects error)
  show ?thesis
    unfolding FetchRejects fetch_rejects
    by (rule exI, rule mock_cycle_second)
next
  case (FetchResolves r)
  show ?thesis
  proof (cases "ok r")
    case False
    show ?thesis
      unfolding FetchResolves fetch_not_ok [OF False]
      by (rule exI, rule mock_cycle_here)
  next
    case True
    with assms FetchResolves obtain error where j: "json r = JsonRejects error"
      by (auto split: json_result.splits)
    show ?thesis
      unfolding FetchResolves fetch_json_rejects [OF True j] catch_block_eq
      by (rule exI, rule mock_cycle_logged)
  qed
qed

text \<open>
  C5: when \<open>fetch\<close> throws, or its promise is rejected, or the response is not \<open>ok\<close>, or
  \<open>json()\<close> fails, the cycle still ends in \<open>updateDashboard\<close> on a mock reading generated
  in this cycle, and what is left is the world after that generation and the dashboard
  after that update: no error is kept in the object or shown in the page.
\<close>

theorem fetch_failure_falls_back:
  assumes "fetch_failed fetched"
  shows "\<exists>w0. randoms w0 = randoms w \<and> time_strings w0 = time_strings w \<and>
           random_calls w \<le> random_calls w0 \<and> date_calls w \<le> date_calls w0 \<and>
           fetchESP32Data rnd tostr pf fetched (w, d) =
             (snd (generateMockData rnd tostr w0),
              updateDashboard pf (fst (generateMockData rnd tostr w0)) d)"
  using failed_fetch_mock_cycle [OF assms] unfolding mock_cycle_def .

lemma sample_readout:
  "current_temp (updateDashboard pf r (new_dashboard ch (Some old) h p)) =
     Some (temperature r @ [0xB0, 0x43])"
  by (simp add: updateDashboard_def new_dashboard_def Let_def set_text_def updateChart_def
      split: option.splits)

lemma sample_second_mock:
  "temperature (fst (generateMockData (\<lambda>x. x) (\<lambda>x. [])
      (snd (generateMockData (\<lambda>x. x) (\<lambda>x. []) sample_world)))) = js ''25.00''"
  by (simp add: generateMockData_eq sample_world_def toFixed_def Let_def digits.simps
      digit_char_def js_def)

theorem fetch_failure_falls_back_witness:
  "fetch_failed (FetchRejects NetworkError) \<and>
   (\<exists>w0. randoms w0 = randoms sample_world \<and> time_strings w0 = time_strings sample_world \<and>
      random_calls sample_world \<le> random_calls w0 \<and> date_calls sample_world \<le> date_calls w0 \<and>
      fetchESP32Data (\<lambda>x. x) (\<lambda>x. []) (\<lambda>s. s) (FetchRejects NetworkError)
          (sample_world, new_dashboard None (Some []) None None) =
        (snd (generateMockData (\<lambda>x. x) (\<lambda>x. []) w0),
         updateDashboard (\<lambda>s. s) (fst (generateMockData (\<lambda>x. x) (\<lambda>x. []) w0))
           (new_dashboard None (Some []) None None))) \<and>
   current_temp (snd (fetchESP32Data (\<lambda>x. x) (\<lambda>x. []) (\<lambda>s. s) (FetchRejects NetworkError)
       (sample_world, new_dashboard None (Some []) None None))) =
     Some (js ''25.00'' @ [0xB0, 0x43])"
proof -
  have f: "fetch_failed (FetchRejects NetworkError)"
    by simp
  have t: "current_temp (snd (fetchESP32Data (\<lambda>x. x) (\<lambda>x. []) (\<lambda>s. s) (FetchRejects NetworkError)
       (sample_world, new_dashboard None (Some []) None None))) =
     Some (js ''25.00'' @ [0xB0, 0x43])"
    by (simp only: fetch_rejects mock_update_eq snd_conv sample_readout sample_second_mock)
  from f t fetch_failure_falls_back [OF f, where rnd = "\<lambda>x. x" and tostr = "\<lambda>x. []"
      and pf = "\<lambda>s. s" and w = sample_world and d = "new_dashboard None (Some []) None None"]
  show ?thesis
    by blast
qed

text \<open>
  C9: when the promise of \<open>fetch\<close> is rejected, \<open>generateMockData\<close> runs twice: the
  reading of the first run, made in the rejection handler, has no \<open>ok\<close> and is dropped; the
  reading of the second run, made from the next three values of the random source, is the
  one passed to \<open>updateDashboard\<close>.
\<close>

theorem rejected_fetch_generates_twice:
  "fetchESP32Data rnd tostr pf (FetchRejects error) (w, d) =
     (let (m1, w1) = generateMockData rnd tostr w;
          (m2, w2) = generateMockData rnd tostr w1
      in (w2, updateDashboard pf m2 d)) \<and>
   fst (fetchESP32Data rnd tostr pf (FetchRejects error) (w, d)) =
     w\<lparr>random_calls := random_calls w + 6, date_calls := date_calls w + 2\<rparr> \<and>
   fst (generateMockData rnd tostr (snd (generateMockData rnd tostr w))) =
     \<lparr>temperature = toFixed tostr 2 (rnd (20 + rnd (randoms w (random_calls w + 3) * 10))),
      humidity = toFixed tostr 2 (rnd (40 + rnd (randoms w (random_calls w + 4) * 30))),
      pressure = toFixed tostr 2 (rnd (1013 + rnd (randoms w (random_calls w + 5) * 5))),
      timestamp = time_strings w (date_calls w + 1)\<rparr>"
  by (simp add: fetch_rejects mock_update_eq split_beta generateMockData_eq eval_nat_numeral)

section \<open>Smooth scrolling\<close>

lemma hash_x: "js ''#x'' \<noteq> js ''#''"
  by (simp add: js_def)

text \<open>
  C6, as stated: on a click on a same-page anchor each of the two handlers cancels the
  default navigation, scrolls if and only if an element matches, and leaves the default
  navigation alone when none matches. This fails where none matches: the handler of the
  first script does not cancel, and the handler of \<open>initSmoothScroll\<close> cancels all the same.
\<close>

theorem smooth_scroll_counterexample:
  "\<not> defaultPrevented (smooth_scroll_click (\<lambda>href. Null) (js ''#x'') new_click) \<and>
   defaultPrevented (initSmoothScroll_click (\<lambda>href. Null) (js ''#x'') new_click)"
  by (simp add: smooth_scroll_click_def initSmoothScroll_click_def new_click_def hash_x)

text \<open>
  C6, amended: on a click on a same-page anchor (\<open>href\<close> starts with \<open>#\<close> and is not
  \<open>#\<close>), the handler of the first script cancels the default navigation if and only if
  an element matches \<open>href\<close>, the handler of \<open>initSmoothScroll\<close> cancels it always, and
  each starts a smooth scroll to the element if and only if one matches.
\<close>

theorem smooth_scroll_handlers:
  assumes "take 1 href = js ''#''" and "href \<noteq> js ''#''"
  shows "defaultPrevented (smooth_scroll_click querySelector href new_click) =
           (\<exists>el. querySelector href = Element el) \<and>
         scrolls (smooth_scroll_click querySelector href new_click) =
           (case querySelector href of
              Element el \<Rightarrow> [(el, js ''smooth'', Some (js ''start''))] | _ \<Rightarrow> []) \<and>
         defaultPrevented (initSmoothScroll_click querySelector href new_click) \<and>
         scrolls (initSmoothScroll_click querySelector href new_click) =
           (case querySelector href of Element el \<Rightarrow> [(el, js ''smooth'', None)] | _ \<Rightarrow> [])"
  using assms(2)
  by (simp add: smooth_scroll_click_def initSmoothScroll_click_def new_click_def
      split: query_result.splits)

theorem smooth_scroll_handlers_witness:
  "defaultPrevented (smooth_scroll_click (\<lambda>href. Element 7) (js ''#top'') new_click) \<and>
   scrolls (smooth_scroll_click (\<lambda>href. Element 7) (js ''#top'') new_click) =
     [(7, js ''smooth'', Some (js ''start''))] \<and>
   defaultPrevented (initSmoothScroll_click (\<lambda>href. Element 7) (js ''#top'') new_click) \<and>
   scrolls (initSmoothScroll_click (\<lambda>href. Element 7) (js ''#top'') new_click) =
     [(7, js ''smooth'', None)]"
proof -
  have "take 1 (js ''#top'') = js ''#''" and "js ''#top'' \<noteq> js ''#''"
    by (simp_all add: js_def)
  from smooth_scroll_handlers [OF this, of "\<lambda>href. Element 7"] show ?thesis
    by simp
qed

section \<open>The contact form\<close>

lemma error_is_not_success: "js ''error'' \<noteq> js ''success''"
  by (simp add: js_def)

lemma showNotification_error:
  "showNotification message (js ''error'') p = p\<lparr>body := body p @ [error_toast message]\<rparr>"
  by (simp add: showNotification_def error_toast_def error_is_not_success)

lemma showNotification_form: "contactForm (showNotification message type p) = contactForm p"
  by (simp add: showNotification_def)

text \<open>
  C7: a submission with the name, the address or the message empty shows the error toast
  and leaves the form as it is; the form is reset on the success path only, where the
  three fields are filled in and the address is valid, and off that path the toast shown
  is an error toast.
\<close>

theorem empty_field_no_reset:
  "(falsy (fromEntries (entries (contactForm p)) (js ''name'')) \<or>
    falsy (fromEntries (entries (contactForm p)) (js ''email'')) \<or>
    falsy (fromEntries (entries (contactForm p)) (js ''message'')) \<longrightarrow>
      body (submit p) = body p @ [error_toast fill_all_fields] \<and>
      contactForm (submit p) = contactForm p) \<and>
   contactForm (submit p) = (if all_valid p then reset (contactForm p) else contactForm p) \<and>
   (\<not> all_valid p \<longrightarrow> (\<exists>message. body (submit p) = body p @ [error_toast message]))"
  by (auto simp: submit_def Let_def showNotification_error showNotification_form all_valid_def)

theorem empty_field_no_reset_witness:
  "falsy (fromEntries (entries (contactForm sample_page)) (js ''message'')) \<and>
   body (submit sample_page) = [error_toast fill_all_fields] \<and>
   contactForm (submit sample_page) = contactForm sample_page"
proof -
  have e: "falsy (fromEntries (entries (contactForm sample_page)) (js ''message''))"
    by (simp add: sample_page_def fromEntries_def js_def)
  have b: "body sample_page = []"
    by (simp add: sample_page_def)
  from e b empty_field_no_reset [of sample_page] show ?thesis
    by simp
qed

section \<open>The rounding of binary64\<close>

text \<open>
  \<open>b64\<close> is odd, monotone and idempotent, keeps the integers up to \<open>2^53\<close> and their
  quotients by powers of two, at most doubles a number, and errs by at most half a unit in
  the last place.
\<close>

lemma round_even_of_int: "round_even (of_int k) = k"
  by (simp add: round_even_def)

lemma round_even_floor: "\<lfloor>y\<rfloor> \<le> round_even y"
  by (simp add: round_even_def)

lemma round_even_floor1: "round_even y \<le> \<lfloor>y\<rfloor> + 1"
  by (simp add: round_even_def)

lemma round_even_upper: "of_int (round_even y) \<le> y + 1 / 2"
  by (auto simp: round_even_def) linarith+


lemma round_even_mono: "y \<le> z \<Longrightarrow> round_even y \<le> round_even z"
proof -
  assume yz: "y \<le> z"
  have fl: "\<lfloor>y\<rfloor> \<le> \<lfloor>z\<rfloor>" using yz by (rule floor_mono)
  show ?thesis
  proof (cases "\<lfloor>y\<rfloor> = \<lfloor>z\<rfloor>")
    case True
    with yz show ?thesis by (auto simp: round_even_def)
  next
    case False
    with fl have "\<lfloor>y\<rfloor> + 1 \<le> \<lfloor>z\<rfloor>" by simp
    with round_even_floor1 [of y] round_even_floor [of z] show ?thesis by linarith
  qed
qed

lemma round_even_le_int: "y \<le> of_int k \<Longrightarrow> round_even y \<le> k"
  using round_even_mono [of y "of_int k"] by (simp add: round_even_of_int)

lemma round_even_ge_int: "of_int k \<le> y \<Longrightarrow> k \<le> round_even y"
  using round_even_mono [of "of_int k" y] by (simp add: round_even_of_int)

lemma round_even_minus: "round_even (- y) = - round_even y"
proof (cases "y = of_int \<lfloor>y\<rfloor>")
  case True
  then obtain k where "y = of_int k" by blast
  then have "- y = of_int (- k)" by simp
  then show ?thesis using \<open>y = of_int k\<close> by (simp only: round_even_of_int)
next
  case False
  then have f: "\<lfloor>- y\<rfloor> = - \<lfloor>y\<rfloor> - 1"
    by (simp add: floor_minus ceiling_altdef)
  show ?thesis
    unfolding round_even_def f by (auto simp: algebra_simps) 
qed

lemma round_even_nonneg: "0 \<le> y \<Longrightarrow> 0 \<le> round_even y"
  using round_even_ge_int [of 0 y] by simp

lemma round_even_twice: "0 \<le> y \<Longrightarrow> of_int (round_even y) \<le> 2 * y"
proof (cases "y < 1 / 2")
  case True
  assume "0 \<le> y"
  with True have "\<lfloor>y\<rfloor> = 0" by (simp add: floor_eq_iff)
  with True \<open>0 \<le> y\<close> show ?thesis by (simp add: round_even_def)
next
  case False
  with round_even_upper [of y] show ?thesis by linarith
qed

lemma exponent_ge: "- 1022 \<le> exponent x"
  by (simp add: exponent_def)

lemma exponent_minus: "exponent (- x) = exponent x"
  by (simp add: exponent_def)

lemma ulp_minus: "ulp (- x) = ulp x"
  by (simp add: ulp_def exponent_minus)

lemma ulp_pos: "0 < ulp x"
  by (simp add: ulp_def)

lemma below_next_binade:
  assumes "x \<noteq> 0"
  shows "\<bar>x\<bar> < 2 powr of_int (exponent x + 1)"
proof -
  have pos: "0 < \<bar>x\<bar>" using assms by simp
  define k where "k = \<lfloor>log 2 \<bar>x\<bar>\<rfloor>"
  have "\<bar>x\<bar> < 2 powr of_int (k + 1)"
    using floor_log_eq_powr_iff [of "\<bar>x\<bar>" 2 k] pos by (simp add: k_def)
  also have "\<dots> \<le> 2 powr of_int (exponent x + 1)"
    by (rule powr_mono) (simp_all add: exponent_def k_def)
  finally show ?thesis .
qed

lemma above_binade:
  assumes "x \<noteq> 0" and "- 1022 < exponent x"
  shows "2 powr of_int (exponent x) \<le> \<bar>x\<bar>"
proof -
  have pos: "0 < \<bar>x\<bar>" using assms by simp
  define k where "k = \<lfloor>log 2 \<bar>x\<bar>\<rfloor>"
  have "exponent x = k"
    using assms(2) by (simp add: exponent_def k_def max_def split: if_splits)
  moreover have "2 powr of_int k \<le> \<bar>x\<bar>"
    using floor_log_eq_powr_iff [of "\<bar>x\<bar>" 2 k] pos by (simp add: k_def)
  ultimately show ?thesis by simp
qed

lemma exponent_mono:
  assumes "x \<noteq> 0" and "\<bar>x\<bar> \<le> \<bar>y\<bar>"
  shows "exponent x \<le> exponent y"
proof -
  have "log 2 \<bar>x\<bar> \<le> log 2 \<bar>y\<bar>"
    using assms by (intro log_mono) simp_all
  then have "\<lfloor>log 2 \<bar>x\<bar>\<rfloor> \<le> \<lfloor>log 2 \<bar>y\<bar>\<rfloor>"
    by (rule floor_mono)
  then show ?thesis by (simp add: exponent_def)
qed

lemma exponent_eq:
  assumes "- 1022 \<le> e" and "2 powr of_int e \<le> \<bar>x\<bar>" and "\<bar>x\<bar> < 2 powr of_int (e + 1)"
  shows "exponent x = e"
proof -
  have pos: "0 < \<bar>x\<bar>"
  proof -
    have "(0::real) < 2 powr of_int e" by simp
    with assms(2) show ?thesis by linarith
  qed
  have "\<lfloor>log 2 \<bar>x\<bar>\<rfloor> = e"
    using floor_log_eq_powr_iff [of "\<bar>x\<bar>" 2 e] pos assms(2,3) by simp
  then show ?thesis using assms(1) by (simp add: exponent_def)
qed

lemma exponent_le:
  assumes "x \<noteq> 0" and "- 1022 \<le> e" and "\<bar>x\<bar> < 2 powr of_int (e + 1)"
  shows "exponent x \<le> e"
proof -
  have pos: "0 < \<bar>x\<bar>" using assms(1) by simp
  define k where "k = \<lfloor>log 2 \<bar>x\<bar>\<rfloor>"
  have "2 powr of_int k \<le> \<bar>x\<bar>"
    using floor_log_eq_powr_iff [of "\<bar>x\<bar>" 2 k] pos by (simp add: k_def)
  with assms(3) have "2 powr of_int k < (2::real) powr of_int (e + 1)" by linarith
  then have "k < e + 1" by simp
  then show ?thesis using assms(2) by (simp add: exponent_def k_def)
qed

lemma b64_0: "b64 0 = 0"
  by (simp add: b64_def)

lemma b64_minus: "b64 (- x) = - b64 x"
  by (simp add: b64_def ulp_minus round_even_minus)

lemma b64_nonneg: "0 \<le> x \<Longrightarrow> 0 \<le> b64 x"
  using ulp_pos [of x] by (simp add: b64_def round_even_nonneg)

lemma b64_twice: "0 \<le> x \<Longrightarrow> b64 x \<le> 2 * x"
proof (cases "x = 0")
  case True
  then show ?thesis by (simp add: b64_0)
next
  case False
  assume "0 \<le> x"
  then have "0 \<le> x / ulp x" using ulp_pos [of x] by simp
  then have "of_int (round_even (x / ulp x)) \<le> 2 * (x / ulp x)"
    by (rule round_even_twice)
  then have "ulp x * of_int (round_even (x / ulp x)) \<le> ulp x * (2 * (x / ulp x))"
    using ulp_pos [of x] by (simp only: mult_le_cancel_left_pos)
  then show ?thesis using False ulp_pos [of x] by (simp add: b64_def)
qed

lemma b64_nonpos: "x \<le> 0 \<Longrightarrow> b64 x \<le> 0"
  using b64_nonneg [of "- x"] by (simp add: b64_minus)

lemma b64_twice_neg: "x \<le> 0 \<Longrightarrow> 2 * x \<le> b64 x"
  using b64_twice [of "- x"] by (simp add: b64_minus)


text \<open>A nonzero number whose quotient by its unit in the last place is an integer is kept.\<close>

lemma b64_integral:
  assumes "x / ulp x = of_int k"
  shows "b64 x = x"
proof (cases "x = 0")
  case True
  then show ?thesis by (simp add: b64_0)
next
  case False
  have "ulp x * of_int (round_even (x / ulp x)) = ulp x * (x / ulp x)"
    unfolding assms round_even_of_int by (rule refl)
  also have "\<dots> = x" using ulp_pos [of x] by simp
  finally show ?thesis using False by (simp add: b64_def)
qed

lemma b64_multiple:
  assumes "x = ulp x * of_int k"
  shows "b64 x = x"
proof -
  have "x / ulp x = ulp x * of_int k / ulp x"
    using assms by simp
  also have "\<dots> = of_int k"
    using ulp_pos [of x] by simp
  finally show ?thesis by (rule b64_integral)
qed

lemma two_powr_int: "0 \<le> n \<Longrightarrow> (2::real) powr of_int n = of_int (2 ^ nat n)"
  by (simp add: powr_int)

lemma b64_scaled:
  assumes e: "- 1022 \<le> e" and k: "\<bar>k\<bar> \<le> 2 ^ 53"
  shows "b64 (2 powr of_int (e - 52) * of_int k) = 2 powr of_int (e - 52) * of_int k"
proof (cases "k = 0")
  case True
  then show ?thesis by (simp add: b64_0)
next
  case False
  define x where "x = 2 powr of_int (e - 52) * real_of_int k"
  have x0: "x \<noteq> 0" using False by (simp add: x_def)
  have absx: "\<bar>x\<bar> = 2 powr of_int (e - 52) * of_int \<bar>k\<bar>"
    by (simp add: x_def abs_mult)
  have split: "(2::real) powr of_int (e + 1) = 2 powr of_int (e - 52) * 2 ^ 53"
  proof -
    have "(of_int (e + 1) :: real) = of_int (e - 52) + 53" by simp
    then have "(2::real) powr of_int (e + 1) = 2 powr (of_int (e - 52) + 53)" by (simp only:)
    also have "\<dots> = 2 powr of_int (e - 52) * 2 powr 53" by (rule powr_add)
    finally show ?thesis by simp
  qed
  show ?thesis
  proof (cases "\<bar>k\<bar> = 2 ^ 53")
    case True
    have "real_of_int \<bar>k\<bar> = 2 ^ 53"
      unfolding True by simp
    then have ax: "\<bar>x\<bar> = 2 powr of_int (e + 1)"
      unfolding absx split by (simp only:)
    have "exponent x = e + 1"
      using e by (intro exponent_eq) (simp_all add: ax)
    then have u: "ulp x = 2 powr of_int (e - 52) * 2"
    proof -
      assume "exponent x = e + 1"
      then have "ulp x = 2 powr (of_int (e - 52) + 1)" by (simp add: ulp_def)
      also have "\<dots> = 2 powr of_int (e - 52) * 2 powr 1" by (rule powr_add)
      finally show ?thesis by simp
    qed
    have "even \<bar>k\<bar>" unfolding True by simp
    then have "even k" by simp
    then have "k = 2 * (k div 2)" by simp
    then have "real_of_int k = 2 * real_of_int (k div 2)"
      by (metis of_int_mult of_int_numeral)
    then have xe: "x = 2 powr of_int (e - 52) * 2 * real_of_int (k div 2)"
      by (simp add: x_def)
    have "x = ulp x * of_int (k div 2)"
      by (rule trans [OF xe]) (simp only: u)
    then show ?thesis unfolding x_def [symmetric] by (rule b64_multiple)
  next
    case small: False
    with k have "\<bar>k\<bar> < 2 ^ 53" by simp
    then have "real_of_int \<bar>k\<bar> < 2 ^ 53"
      by (metis of_int_less_iff of_int_numeral of_int_power)
    then have "\<bar>x\<bar> < 2 powr of_int (e + 1)"
      unfolding absx split by (simp only: mult_less_cancel_left_pos powr_gt_zero)
    then have le: "exponent x \<le> e"
      using x0 e by (intro exponent_le)
    define n where "n = e - exponent x"
    have n: "0 \<le> n" using le by (simp add: n_def)
    have scale: "2 powr of_int (e - 52) = ulp x * 2 powr of_int n"
    proof -
      have "of_int (e - 52) = of_int (exponent x - 52) + (of_int n :: real)"
        by (simp add: n_def)
      then show ?thesis unfolding ulp_def by (simp only: powr_add)
    qed
    have xk: "x = 2 powr of_int (e - 52) * real_of_int k"
      by (simp add: x_def)
    have "x = ulp x * 2 powr of_int n * real_of_int k"
      by (rule trans [OF xk]) (simp only: scale)
    then have "x = ulp x * of_int (2 ^ nat n * k)"
      by (simp add: two_powr_int [OF n])
    then show ?thesis unfolding x_def [symmetric] by (rule b64_multiple)
  qed
qed

lemma ulp_53: "ulp x * 2 ^ 53 = 2 powr of_int (exponent x + 1)"
proof -
  have "(of_int (exponent x + 1) :: real) = of_int (exponent x - 52) + 53" by simp
  then have "(2::real) powr of_int (exponent x + 1) = 2 powr (of_int (exponent x - 52) + 53)"
    by (simp only:)
  also have "\<dots> = 2 powr of_int (exponent x - 52) * 2 powr 53" by (rule powr_add)
  finally show ?thesis by (simp add: ulp_def)
qed

lemma ulp_52: "ulp x * 2 ^ 52 = 2 powr of_int (exponent x)"
proof -
  have "(of_int (exponent x) :: real) = of_int (exponent x - 52) + 52" by simp
  then have "(2::real) powr of_int (exponent x) = 2 powr (of_int (exponent x - 52) + 52)"
    by (simp only:)
  also have "\<dots> = 2 powr of_int (exponent x - 52) * 2 powr 52" by (rule powr_add)
  finally show ?thesis by (simp add: ulp_def)
qed

lemma quotient_below:
  assumes "x \<noteq> 0"
  shows "\<bar>x / ulp x\<bar> < 2 ^ 53"
proof -
  have "\<bar>x\<bar> < ulp x * 2 ^ 53"
    using below_next_binade [OF assms] by (simp only: ulp_53)
  then show ?thesis using ulp_pos [of x] by (simp add: field_simps)
qed



lemma b64_below_next:
  assumes "0 < x"
  shows "b64 x \<le> 2 powr of_int (exponent x + 1)"
proof -
  have c: "real_of_int (2 ^ 53) = 2 ^ 53" by simp
  have "x \<noteq> 0" using assms by simp
  then have "x / ulp x \<le> of_int (2 ^ 53)"
    unfolding c using quotient_below [of x] by linarith
  then have "round_even (x / ulp x) \<le> 2 ^ 53"
    by (rule round_even_le_int)
  then have "real_of_int (round_even (x / ulp x)) \<le> 2 ^ 53"
    by (metis of_int_le_iff of_int_numeral of_int_power)
  then have "ulp x * of_int (round_even (x / ulp x)) \<le> ulp x * 2 ^ 53"
    using ulp_pos [of x] by (simp only: mult_le_cancel_left_pos)
  then have "ulp x * of_int (round_even (x / ulp x)) \<le> 2 powr of_int (exponent x + 1)"
    by (simp only: ulp_53)
  moreover have "b64 x = ulp x * of_int (round_even (x / ulp x))"
    using assms by (simp add: b64_def)
  ultimately show ?thesis by (simp only:)
qed

lemma b64_above_binade:
  assumes "0 < x" and "- 1022 < exponent x"
  shows "2 powr of_int (exponent x) \<le> b64 x"
proof -
  have "x \<noteq> 0" using assms by simp
  then have "2 powr of_int (exponent x) \<le> \<bar>x\<bar>"
    using assms(2) by (rule above_binade)
  then have "ulp x * 2 ^ 52 \<le> x"
    using assms(1) by (simp only: ulp_52 abs_of_pos)
  then have "2 ^ 52 \<le> x / ulp x"
    using ulp_pos [of x] by (simp only: pos_le_divide_eq mult.commute)
  moreover have "real_of_int (2 ^ 52) = 2 ^ 52" by simp
  ultimately have "of_int (2 ^ 52) \<le> x / ulp x"
    by (simp only:)
  then have "2 ^ 52 \<le> round_even (x / ulp x)"
    by (rule round_even_ge_int)
  then have "2 ^ 52 \<le> real_of_int (round_even (x / ulp x))"
    by (metis of_int_le_iff of_int_numeral of_int_power)
  then have "ulp x * 2 ^ 52 \<le> ulp x * of_int (round_even (x / ulp x))"
    using ulp_pos [of x] by (simp only: mult_le_cancel_left_pos)
  then have "2 powr of_int (exponent x) \<le> ulp x * of_int (round_even (x / ulp x))"
    by (simp only: ulp_52)
  moreover have "b64 x = ulp x * of_int (round_even (x / ulp x))"
    using assms by (simp add: b64_def)
  ultimately show ?thesis by (simp only:)
qed

lemma b64_mono_pos:
  assumes "0 < x" and "x \<le> y"
  shows "b64 x \<le> b64 y"
proof -
  have y: "0 < y" using assms by simp
  have le: "exponent x \<le> exponent y"
    using assms by (intro exponent_mono) simp_all
  show ?thesis
  proof (cases "exponent x = exponent y")
    case True
    then have u: "ulp x = ulp y" by (simp add: ulp_def)
    have "x / ulp y \<le> y / ulp y"
      using assms(2) ulp_pos [of y] by (simp add: divide_right_mono)
    then have "round_even (x / ulp y) \<le> round_even (y / ulp y)"
      by (rule round_even_mono)
    then have "ulp y * of_int (round_even (x / ulp y)) \<le> ulp y * of_int (round_even (y / ulp y))"
      using ulp_pos [of y] by simp
    then show ?thesis using assms(1) y by (simp add: b64_def u)
  next
    case False
    with le have lt: "exponent x + 1 \<le> exponent y" by simp
    have "b64 x \<le> 2 powr of_int (exponent x + 1)"
      using assms(1) by (rule b64_below_next)
    also have "\<dots> \<le> 2 powr of_int (exponent y)"
      using lt by (intro powr_mono) simp_all
    also have "\<dots> \<le> b64 y"
      using y lt exponent_ge [of x] by (intro b64_above_binade) simp_all
    finally show ?thesis .
  qed
qed

lemma b64_mono:
  assumes "x \<le> y"
  shows "b64 x \<le> b64 y"
proof -
  consider "0 < x" | "x \<le> 0" "0 \<le> y" | "y < 0" by linarith
  then show ?thesis
  proof cases
    case 1
    then show ?thesis using assms by (rule b64_mono_pos)
  next
    case 2
    then show ?thesis using b64_nonpos [of x] b64_nonneg [of y] by simp
  next
    case 3
    then have "b64 (- y) \<le> b64 (- x)"
      using assms by (intro b64_mono_pos) simp_all
    then show ?thesis by (simp add: b64_minus)
  qed
qed

lemma two_powr_neg: "(2::real) powr (- real n) = 1 / 2 ^ n"
  by (simp add: powr_minus powr_realpow divide_inverse)

lemma b64_int: "\<bar>k\<bar> \<le> 2 ^ 53 \<Longrightarrow> b64 (of_int k) = of_int k"
  using b64_scaled [of 52 k] by simp

lemma b64_pow2_div: "\<bar>k\<bar> \<le> 2 ^ 53 \<Longrightarrow> n \<le> 1074 \<Longrightarrow> b64 (of_int k / 2 ^ n) = of_int k / 2 ^ n"
proof -
  assume k: "\<bar>k\<bar> \<le> 2 ^ 53" and n: "n \<le> 1074"
  have "- 1022 \<le> 52 - int n" using n by simp
  from b64_scaled [OF this k] have "b64 (2 powr of_int (- int n) * of_int k) =
      2 powr of_int (- int n) * of_int k"
    by simp
  then show ?thesis by (simp add: two_powr_neg)
qed

lemma round_even_near:
  assumes "of_int k - 1 / 2 < y" and "y \<le> of_int k"
  shows "round_even y = k"
proof -
  have up: "round_even y \<le> k" using assms(2) by (rule round_even_le_int)
  have "of_int (k - 1) \<le> y" using assms(1) by simp
  then have fl: "k - 1 \<le> \<lfloor>y\<rfloor>" by (simp add: le_floor_iff)
  show ?thesis
  proof (cases "\<lfloor>y\<rfloor> = k - 1")
    case True
    then have "1 / 2 < y - of_int \<lfloor>y\<rfloor>" using assms(1) by simp
    then show ?thesis using True by (simp add: round_even_def)
  next
    case False
    with fl have "k \<le> \<lfloor>y\<rfloor>" by simp
    with round_even_floor [of y] up show ?thesis by simp
  qed
qed














lemma approach_stuck: "approach (b64 (12 / 100)) 1 (1 + 1 / 2 ^ 52) = 1 + 1 / 2 ^ 52"
proof -
  define e where "e = b64 (12 / 100)"
  define d :: real where "d = - 1 / 2 ^ 52"
  define s where "s = b64 (d * e)"
  define q where "q = 1 + 1 / 2 ^ 52 + s"
  have e: "0 \<le> e" "e \<le> 24 / 100"
    using b64_nonneg [of "12 / 100"] b64_twice [of "12 / 100"] by (simp_all add: e_def)
  have "b64 (of_int (- 1) / 2 ^ 52) = of_int (- 1) / 2 ^ 52"
    by (rule b64_pow2_div) simp_all
  then have d: "b64 (1 - (1 + 1 / 2 ^ 52)) = d"
    by (simp add: d_def)
  have de: "d * e \<le> 0" "- (24 / 100) / 2 ^ 52 \<le> d * e"
    using e by (simp_all add: d_def field_simps)
  have s: "s \<le> 0" "- (48 / 100) / 2 ^ 52 \<le> s"
    using b64_nonpos [OF de(1)] b64_twice_neg [OF de(1)] de(2) by (simp_all add: s_def)
  have q: "1 + (52 / 100) / 2 ^ 52 \<le> q" "q \<le> 1 + 1 / 2 ^ 52"
    using s by (simp_all add: q_def)
  have "exponent q = 0"
    using q by (intro exponent_eq) simp_all
  then have "ulp q = 2 powr (- real 52)"
    by (simp add: ulp_def)
  then have u: "ulp q = 1 / 2 ^ 52"
    by (simp only: two_powr_neg)
  have "round_even (q / ulp q) = 2 ^ 52 + 1"
    using q by (intro round_even_near) (simp_all add: u field_simps)
  then have "b64 q = 1 + 1 / 2 ^ 52"
    using q(1) by (simp add: b64_def u)
  then show ?thesis
    by (simp only: approach_def d q_def s_def e_def)
qed





lemma approach64_stuck: "approach ease64 1 above_one = above_one"
  unfolding ease64_def above_one_def by (rule approach_stuck)

lemma approach_rest: "approach e 0 0 = 0"
  by (simp add: approach_def b64_0)

lemma rounding_b64: "rounding b64"
  unfolding rounding_def mono_def using b64_mono b64_int by blast

section \<open>The cursor follower\<close>

lemma dispatch_idle:
  "listeners c = [] \<Longrightarrow> pending_frames c = 0 \<Longrightarrow> dispatch rnd c ev = c"
  by (cases ev) (simp_all add: handlers_at_def)

lemma dispatch_all_idle:
  "listeners c = [] \<Longrightarrow> pending_frames c = 0 \<Longrightarrow> foldl (dispatch rnd) c evs = c"
  by (induction evs) (simp_all add: dispatch_idle)

text \<open>
  C8: on a touch device \<open>init\<close> returns at once: the new object has no listener and no
  requested frame, so whatever events follow, no handler and no \<open>animate\<close> runs, and the
  object and the styles of the two markers stay as the constructor left them.
\<close>

theorem touch_device_disables:
  assumes "isTouchDevice nav"
  shows "CustomCursor rnd nav inner outer interactiveElements = new_cursor rnd inner outer \<and>
         listeners (CustomCursor rnd nav inner outer interactiveElements) = [] \<and>
         pending_frames (CustomCursor rnd nav inner outer interactiveElements) = 0 \<and>
         foldl (dispatch rnd) (CustomCursor rnd nav inner outer interactiveElements) evs =
           new_cursor rnd inner outer"
proof -
  have c: "CustomCursor rnd nav inner outer interactiveElements = new_cursor rnd inner outer"
    using assms by (simp add: CustomCursor_def init_def)
  have idle: "listeners (new_cursor rnd inner outer) = []"
    "pending_frames (new_cursor rnd inner outer) = 0"
    by (simp_all add: new_cursor_def)
  show ?thesis
    unfolding c using idle dispatch_all_idle [OF idle] by simp
qed

theorem touch_device_disables_witness:
  "isTouchDevice touch_navigator \<and>
   foldl (dispatch (\<lambda>x. x))
     (CustomCursor (\<lambda>x. x) touch_navigator (Some blank_element) (Some blank_element) [0, 1])
     [Mouse Document Mousemove 10 20, Mouse (Interactive 0) Mouseenter 10 20, Frame] =
   new_cursor (\<lambda>x. x) (Some blank_element) (Some blank_element)"
proof -
  have t: "isTouchDevice touch_navigator"
    by (simp add: isTouchDevice_def touch_navigator_def)
  from t touch_device_disables [OF t, where rnd = "\<lambda>x. x" and inner = "Some blank_element"
      and outer = "Some blank_element" and interactiveElements = "[0, 1]"
      and evs = "[Mouse Document Mousemove 10 20, Mouse (Interactive 0) Mouseenter 10 20, Frame]"]
  show ?thesis
    by blast
qed

lemma animate_fields:
  "innerX (animate rnd c) = innerX c" "innerY (animate rnd c) = innerY c"
  "easeAmount (animate rnd c) = easeAmount c"
  "outerX (animate rnd c) = rnd (outerX c + rnd (rnd (innerX c - outerX c) * easeAmount c))"
  "outerY (animate rnd c) = rnd (outerY c + rnd (rnd (innerY c - outerY c) * easeAmount c))"
  by (simp_all add: animate_def Let_def split: option.splits)

lemma animate_b64:
  "outerX (animate b64 c) = approach (easeAmount c) (innerX c) (outerX c)"
  "outerY (animate b64 c) = approach (easeAmount c) (innerY c) (outerY c)"
  by (simp_all add: animate_fields approach_def)










lemma new_cursor_fields:
  "innerX (new_cursor b64 inner outer) = 0" "outerX (new_cursor b64 inner outer) = 0"
  "innerY (new_cursor b64 inner outer) = 0" "outerY (new_cursor b64 inner outer) = 0"
  "easeAmount (new_cursor b64 inner outer) = ease64"
  by (simp_all add: new_cursor_def ease64_def)

lemma stuck_positions:
  "innerX stuck_cursor = 1" "outerX stuck_cursor = above_one"
  "innerY stuck_cursor = 0" "outerY stuck_cursor = 0"
  "easeAmount stuck_cursor = ease64"
  by (simp_all add: stuck_cursor_def new_cursor_fields)

lemma one_step_away: "sqrt ((1 - above_one)\<^sup>2 + (0 - 0)\<^sup>2) = 1 / 2 ^ 52"
proof -
  have "(1 - above_one)\<^sup>2 + (0 - 0)\<^sup>2 = (1 / 2 ^ 52)\<^sup>2"
    by (simp add: above_one_def)
  then have "sqrt ((1 - above_one)\<^sup>2 + (0 - 0)\<^sup>2) = \<bar>1 / 2 ^ 52\<bar>"
    by (simp only: real_sqrt_abs)
  then show ?thesis by simp
qed





text \<open>The follower at that place stays there for good, so the distance does not tend to zero.\<close>

lemma stuck_for_good: "distance ((animate b64 ^^ N) stuck_cursor) = 1 / 2 ^ 52"
proof -
  have "innerX ((animate b64 ^^ N) stuck_cursor) = 1 \<and>
      outerX ((animate b64 ^^ N) stuck_cursor) = above_one \<and>
      innerY ((animate b64 ^^ N) stuck_cursor) = 0 \<and>
      outerY ((animate b64 ^^ N) stuck_cursor) = 0 \<and>
      easeAmount ((animate b64 ^^ N) stuck_cursor) = ease64"
  proof (induction N)
    case 0
    show ?case by (simp add: stuck_positions)
  next
    case (Suc N)
    then show ?case
      by (simp add: animate_fields(1-3) animate_b64 approach64_stuck approach_rest)
  qed
  then have "distance ((animate b64 ^^ N) stuck_cursor) =
      sqrt ((1 - above_one)\<^sup>2 + (0 - 0)\<^sup>2)"
    unfolding distance_def by (simp only:)
  then show ?thesis by (simp only: one_step_away)
qed





end
